theory Spec2Isabelle
  imports Complex_Main
begin

section \<open>Floating-point arithmetic\<close>

text \<open>
  The notebook computes with the floats of Python and numpy. Their arithmetic is not part
  of the repository, so it is a parameter \<open>F\<close> of every function below: operations on a
  type \<open>'v\<close> of float values, which may hold numbers, infinities and not-a-number. What is
  proved for every \<open>F\<close> does not depend on rounding, overflow or the rules for the special
  values. Exceptions are values of the type \<open>error\<close>.
\<close>

datatype error =
  IndexError | OutOfDomain | ShapeError | ZeroDivisionError | OverflowError | AttributeError

record 'v arith =
  fnum :: "int \<Rightarrow> 'v"
  fadd :: "'v \<Rightarrow> 'v \<Rightarrow> 'v"
  fsub :: "'v \<Rightarrow> 'v \<Rightarrow> 'v"
  fmul :: "'v \<Rightarrow> 'v \<Rightarrow> 'v"
  fdiv :: "'v \<Rightarrow> 'v \<Rightarrow> 'v"
  fneg :: "'v \<Rightarrow> 'v"
  fpow :: "'v \<Rightarrow> 'v \<Rightarrow> 'v"
  fexp :: "'v \<Rightarrow> 'v"
  flog :: "'v \<Rightarrow> 'v"
  fsqrt :: "'v \<Rightarrow> 'v"
  flt :: "'v \<Rightarrow> 'v \<Rightarrow> bool"
  fle :: "'v \<Rightarrow> 'v \<Rightarrow> bool"
  feq :: "'v \<Rightarrow> 'v \<Rightarrow> bool"
  py_square :: "'v \<Rightarrow> error + 'v"

text \<open>
  \<open>fnum\<close> is the float of an integer literal; \<open>fadd\<close> to \<open>fsqrt\<close> are numpy's \<open>+\<close>, \<open>-\<close>,
  \<open>*\<close>, \<open>/\<close>, unary minus, \<open>**\<close>, \<open>exp\<close>, \<open>log\<close> and \<open>sqrt\<close>, which never raise; \<open>flt\<close>, \<open>fle\<close>
  and \<open>feq\<close> are \<open><\<close>, \<open><=\<close> and \<open>==\<close> (\<open>a > b\<close> is \<open>flt F b a\<close>). \<open>py_square\<close> is \<open>x ** 2\<close> on
  a Python float, which raises \<open>OverflowError\<close> when the square overflows.
\<close>

section \<open>The data model of the notebook\<close>

text \<open>A discrete distribution of the toolkit: the nodes \<open>X\<close> and their probabilities \<open>pmf\<close>.\<close>

record 'v DiscreteDistribution =
  X :: "'v list"
  pmf :: "'v list"

record 'v DivProcess =
  alpha :: 'v
  shock_sd :: 'v
  shock_mean :: 'v
  nApprox :: nat
  ShkAppDstn :: "'v DiscreteDistribution"

text \<open>
  The pricing functions the notebook handles: the toolkit's \<open>ConstantFunction\<close>, the
  toolkit's \<open>LinearInterp\<close> (grid, values, and whether extrapolation below the grid is
  permitted), and any other callable on floats that a caller of \<open>solve\<close> supplies.
\<close>

datatype 'v Pfunc =
    ConstantFunction 'v
  | LinearInterp (x_list: "'v list") (y_list: "'v list") (lower_extrap: bool)
  | Callable "'v \<Rightarrow> 'v"

record 'v LucasEconomy =
  CRRA :: 'v
  DiscFac :: 'v
  DivProcess :: "'v DivProcess"
  EqlogPfun :: "'v Pfunc option"

text \<open>What \<open>solve\<close> prints when \<open>disp\<close> is set: the line of an iteration (its number and norm),
  \<open>Price function converged!\<close> and \<open>Maximum iterations exceeded!\<close>.\<close>

datatype 'v line = IterLine nat 'v | ConvergedLine | MaxIterLine

text \<open>The local variables of \<open>solve\<close> while its loop runs, and what it has printed so far.\<close>

record 'v solve_locals =
  normv :: 'v
  Pf_0 :: "'v Pfunc"
  P_0 :: "'v list"
  it :: nat
  stdout :: "'v line list"

section \<open>The functions of numpy and of the toolkit\<close>

text \<open>\<open>CRRAutilityP(c, gam) = c ** -gam\<close>, the marginal utility of constant relative risk
  aversion.\<close>

definition CRRAutilityP :: "'v arith \<Rightarrow> 'v \<Rightarrow> 'v \<Rightarrow> 'v" where
  "CRRAutilityP F c gam = fpow F c (fneg F gam)"

text \<open>
  \<open>np.searchsorted(a, v)\<close> on a sorted array: the number of entries that come before \<open>v\<close>
  in numpy's order of floats, in which a not-a-number (a value that is not equal to
  itself) comes after every number.
\<close>

definition searchsorted :: "'v arith \<Rightarrow> 'v list \<Rightarrow> 'v \<Rightarrow> nat" where
  "searchsorted F a v =
     length (takeWhile (\<lambda>e. flt F e v \<or> (\<not> feq F v v \<and> feq F e e)) a)"

text \<open>
  Modelled from the spec: the evaluation of the toolkit's piecewise-linear interpolant,
  whose source is not part of the repository. The segment used is the one that ends at
  the first grid point (the last one left aside) that does not come before \<open>x\<close>, and the
  first segment if that is the first grid point; so the first and the last segment
  extrapolate. Below the grid's lower bound the evaluation is out of domain unless
  \<open>lower_extrap\<close> is set. A grid of fewer than two points has no segment to index.
\<close>

definition LinearInterp_eval ::
  "'v arith \<Rightarrow> 'v list \<Rightarrow> 'v list \<Rightarrow> bool \<Rightarrow> 'v \<Rightarrow> error + 'v" where
  "LinearInterp_eval F xs ys extrap x =
     (let i = max (searchsorted F (butlast xs) x) 1 in
      if length xs \<le> i \<or> length ys \<le> i then Inl IndexError
      else if \<not> extrap \<and> flt F x (xs ! 0) then Inl OutOfDomain
      else
        let a = fdiv F (fsub F x (xs ! (i - 1))) (fsub F (xs ! i) (xs ! (i - 1)))
        in Inr (fadd F (fmul F (fsub F (fnum F 1) a) (ys ! (i - 1))) (fmul F a (ys ! i))))"

fun call :: "'v arith \<Rightarrow> 'v Pfunc \<Rightarrow> 'v \<Rightarrow> error + 'v" where
  "call F (ConstantFunction c) x = Inr c"
| "call F (LinearInterp xs ys extrap) x = LinearInterp_eval F xs ys extrap x"
| "call F (Callable f) x = Inr (f x)"

text \<open>A list of results is a result: the first error, or all the values.\<close>

fun collect :: "(error + 'a) list \<Rightarrow> error + 'a list" where
  "collect [] = Inr []"
| "collect (r # rs) =
     (case r of
        Inl e \<Rightarrow> Inl e
      | Inr v \<Rightarrow> (case collect rs of Inl e \<Rightarrow> Inl e | Inr vs \<Rightarrow> Inr (v # vs)))"

text \<open>A pricing function applied to an array and to a two-dimensional array, elementwise.\<close>

definition call_vec :: "'v arith \<Rightarrow> 'v Pfunc \<Rightarrow> 'v list \<Rightarrow> error + 'v list" where
  "call_vec F f v = collect (map (call F f) v)"

definition call_mat :: "'v arith \<Rightarrow> 'v Pfunc \<Rightarrow> 'v list list \<Rightarrow> error + 'v list list" where
  "call_mat F f A = collect (map (call_vec F f) A)"

text \<open>The sum of an array.\<close>

definition fsum :: "'v arith \<Rightarrow> 'v list \<Rightarrow> 'v" where
  "fsum F v = foldr (fadd F) v (fnum F 0)"

text \<open>
  \<open>np.linspace(start, stop, num)\<close>: the counts \<open>0, 1, ...\<close> times the step, plus the start,
  with the last entry set to the stop. When the step is zero numpy divides the counts
  first and multiplies by the whole distance then.
\<close>

definition linspace :: "'v arith \<Rightarrow> 'v \<Rightarrow> 'v \<Rightarrow> nat \<Rightarrow> 'v list" where
  "linspace F start stop num =
     (let dv = num - 1;
          delta = fsub F stop start;
          y = map (\<lambda>i. fnum F (int i)) [0..<num];
          y = (if 0 < dv then
                 (let step = fdiv F delta (fnum F (int dv)) in
                  if feq F step (fnum F 0)
                  then map (\<lambda>v. fmul F (fdiv F v (fnum F (int dv))) delta) y
                  else map (\<lambda>v. fmul F v step) y)
               else map (\<lambda>v. fmul F v delta) y);
          y = map (\<lambda>v. fadd F v start) y
      in if 1 < num then y[num - 1 := stop] else y)"

text \<open>\<open>np.linalg.norm\<close> of a vector: the square root of the sum of the squares.\<close>

definition l2norm :: "'v arith \<Rightarrow> 'v list \<Rightarrow> 'v" where
  "l2norm F v = fsqrt F (fsum F (map (\<lambda>a. fmul F a a) v))"

text \<open>Two-dimensional arrays are lists of rows. \<open>tile_col v n\<close> is
  \<open>np.tile(np.reshape(v, (len(v), 1)), (1, n))\<close> and \<open>tile_row v m\<close> is \<open>np.tile(v, (m, 1))\<close>.\<close>

definition tile_col :: "'v list \<Rightarrow> nat \<Rightarrow> 'v list list" where
  "tile_col v n = map (\<lambda>a. replicate n a) v"

definition tile_row :: "'v list \<Rightarrow> nat \<Rightarrow> 'v list list" where
  "tile_row v m = replicate m v"

definition ew :: "('v \<Rightarrow> 'v) \<Rightarrow> 'v list list \<Rightarrow> 'v list list" where
  "ew f A = map (map f) A"

definition ew2 :: "('v \<Rightarrow> 'v \<Rightarrow> 'v) \<Rightarrow> 'v list list \<Rightarrow> 'v list list \<Rightarrow> 'v list list" where
  "ew2 f A B = map2 (map2 f) A B"

section \<open>The notebook's classes\<close>

subsection \<open>DivProcess\<close>

text \<open>The constructor. The discretiser \<open>Normal(mu, sigma).approx(N)\<close> belongs to the
  toolkit and is a parameter.\<close>

definition DivProcess_init ::
  "('v \<Rightarrow> 'v \<Rightarrow> nat \<Rightarrow> 'v DiscreteDistribution) \<Rightarrow> 'v \<Rightarrow> 'v \<Rightarrow> 'v \<Rightarrow> nat \<Rightarrow> 'v DivProcess" where
  "DivProcess_init Normal_approx a sd mean n =
     \<lparr>alpha = a, shock_sd = sd, shock_mean = mean, nApprox = n,
      ShkAppDstn = Normal_approx mean sd n\<rparr>"

text \<open>
  \<open>getLogdGrid\<close>. The attributes are Python floats: \<open>self.alpha**2\<close> raises when it
  overflows, and the division of \<open>self.shock_mean\<close> by \<open>1 - self.alpha\<close> raises when that
  is zero. The division by numpy's square root is numpy's and does not raise.
\<close>

definition getLogdGrid :: "'v arith \<Rightarrow> 'v DivProcess \<Rightarrow> nat \<Rightarrow> error + 'v list" where
  "getLogdGrid F self n =
     (case py_square F (alpha self) of
        Inl e \<Rightarrow> Inl e
      | Inr alpha2 \<Rightarrow>
          let uncond_sd = fdiv F (shock_sd self) (fsqrt F (fsub F (fnum F 1) alpha2)) in
          if feq F (fsub F (fnum F 1) (alpha self)) (fnum F 0) then Inl ZeroDivisionError
          else
            let uncond_mean = fdiv F (shock_mean self) (fsub F (fnum F 1) (alpha self));
                logDGrid = map (\<lambda>v. fadd F v uncond_mean)
                  (linspace F (fmul F (fnum F (- 5)) uncond_sd) (fmul F (fnum F 5) uncond_sd) n)
            in Inr logDGrid)"

subsection \<open>LucasEconomy\<close>

definition LucasEconomy_init :: "'v \<Rightarrow> 'v \<Rightarrow> 'v DivProcess \<Rightarrow> 'v LucasEconomy" where
  "LucasEconomy_init crra discfac divprocess =
     \<lparr>CRRA = crra, DiscFac = discfac, DivProcess = divprocess, EqlogPfun = None\<rparr>"

definition uP :: "'v arith \<Rightarrow> 'v LucasEconomy \<Rightarrow> 'v \<Rightarrow> 'v" where
  "uP F self c = CRRAutilityP F c (CRRA self)"

text \<open>
  \<open>priceOnePeriod\<close>. The rows of the arrays are the states of today, the columns the
  shocks of tomorrow. The constructor of \<open>DivProcess\<close> asks the discretiser for \<open>nApprox\<close>
  nodes; numpy's broadcasting of arrays of other shapes is not followed, such an input is
  a \<open>ShapeError\<close>.
\<close>

definition priceOnePeriod ::
  "'v arith \<Rightarrow> 'v LucasEconomy \<Rightarrow> 'v Pfunc \<Rightarrow> 'v list \<Rightarrow> error + 'v Pfunc" where
  "priceOnePeriod F self Pfunc_next logDGrid =
     (let dGrid_N = length logDGrid;
          shock_N = nApprox (DivProcess self)
      in
      if length (X (ShkAppDstn (DivProcess self))) \<noteq> shock_N
         \<or> length (pmf (ShkAppDstn (DivProcess self))) \<noteq> shock_N
      then Inl ShapeError
      else
        let logD_now = tile_col logDGrid shock_N;
            d_now = ew (fexp F) logD_now;
            Shk_next = tile_row (X (ShkAppDstn (DivProcess self))) dGrid_N;
            Shk_next_pmf = tile_row (pmf (ShkAppDstn (DivProcess self))) dGrid_N;
            logD_next = ew2 (fadd F) (ew (\<lambda>v. fmul F (alpha (DivProcess self)) v) logD_now) Shk_next;
            d_next = ew (fexp F) logD_next
        in
        case call_mat F Pfunc_next logD_next of
          Inl e \<Rightarrow> Inl e
        | Inr P_next \<Rightarrow>
            let SDF = ew (\<lambda>v. fmul F (DiscFac self) v) (ew (uP F self) (ew2 (fdiv F) d_next d_now));
                Payoff_next = ew2 (fadd F) P_next d_next;
                P_now = map (fsum F) (ew2 (fmul F) (ew2 (fmul F) SDF Payoff_next) Shk_next_pmf);
                Pfunc_now = LinearInterp logDGrid P_now True
            in Inr Pfunc_now)"

text \<open>The loop of \<open>solve\<close>: one call is one test of the loop condition
  \<open>norm > tol and it < maxIter\<close>.\<close>

function solve_loop ::
  "'v arith \<Rightarrow> 'v LucasEconomy \<Rightarrow> 'v list \<Rightarrow> 'v \<Rightarrow> nat \<Rightarrow> bool \<Rightarrow> 'v solve_locals
     \<Rightarrow> error + 'v solve_locals" where
  "solve_loop F self logDGrid tol maxIter disp st =
     (if flt F tol (normv st) \<and> it st < maxIter then
        (case priceOnePeriod F self (Pf_0 st) logDGrid of
           Inl e \<Rightarrow> Inl e
         | Inr Pf_next \<Rightarrow>
             (case call_vec F Pf_next logDGrid of
                Inl e \<Rightarrow> Inl e
              | Inr P_next \<Rightarrow>
                  solve_loop F self logDGrid tol maxIter disp
                    \<lparr>normv = l2norm F (map2 (fsub F) (P_0 st) P_next),
                     Pf_0 = Pf_next,
                     P_0 = P_next,
                     it = it st + 1,
                     stdout = stdout st @
                       (if disp
                        then [IterLine (it st + 1) (l2norm F (map2 (fsub F) (P_0 st) P_next))]
                        else [])\<rparr>))
      else Inr st)"
  by pat_completeness auto
termination
  by (relation "measure (\<lambda>(F, self, logDGrid, tol, maxIter, disp, st). maxIter - it st)") auto

declare solve_loop.simps [simp del]

text \<open>\<open>solve\<close> up to the end of its loop: the first norm \<open>tol + 1\<close>, the defaults, the first
  evaluation on the grid, the loop. The result is the state of the local variables when
  the loop is left.\<close>

definition solve_run ::
  "'v arith \<Rightarrow> 'v LucasEconomy \<Rightarrow> 'v Pfunc option \<Rightarrow> 'v list option \<Rightarrow> 'v \<Rightarrow> nat \<Rightarrow> bool
     \<Rightarrow> error + 'v solve_locals" where
  "solve_run F self Pfunc_0 logDGrid tol maxIter disp =
     (let norm0 = fadd F tol (fnum F 1);
          Pfunc_0 = (case Pfunc_0 of None \<Rightarrow> ConstantFunction (fnum F 0) | Some f \<Rightarrow> f)
      in
      case (case logDGrid of None \<Rightarrow> getLogdGrid F (DivProcess self) 100 | Some g \<Rightarrow> Inr g) of
        Inl e \<Rightarrow> Inl e
      | Inr logDGrid \<Rightarrow>
          (case call_vec F Pfunc_0 logDGrid of
             Inl e \<Rightarrow> Inl e
           | Inr P0 \<Rightarrow>
               solve_loop F self logDGrid tol maxIter disp
                 \<lparr>normv = norm0, Pf_0 = Pfunc_0, P_0 = P0, it = 0, stdout = []\<rparr>))"

text \<open>
  \<open>solve\<close> as its caller sees it: it returns nothing, assigns \<open>EqlogPfun\<close> (and \<open>EqPfun\<close>, a
  lambda that reads \<open>EqlogPfun\<close> when it is called) and has printed its lines. The result
  is the economy after the call and the lines printed.
\<close>

definition solve ::
  "'v arith \<Rightarrow> 'v LucasEconomy \<Rightarrow> 'v Pfunc option \<Rightarrow> 'v list option \<Rightarrow> 'v \<Rightarrow> nat \<Rightarrow> bool
     \<Rightarrow> error + ('v LucasEconomy \<times> 'v line list)" where
  "solve F self Pfunc_0 logDGrid tol maxIter disp =
     (case solve_run F self Pfunc_0 logDGrid tol maxIter disp of
        Inl e \<Rightarrow> Inl e
      | Inr st \<Rightarrow>
          Inr (self\<lparr>EqlogPfun := Some (Pf_0 st)\<rparr>,
               stdout st @
                 (if disp then [if fle F (normv st) tol then ConvergedLine else MaxIterLine]
                  else [])))"

definition EqPfun :: "'v arith \<Rightarrow> 'v LucasEconomy \<Rightarrow> 'v \<Rightarrow> error + 'v" where
  "EqPfun F self d =
     (case EqlogPfun self of
        None \<Rightarrow> Inl AttributeError
      | Some f \<Rightarrow> call F f (flog F d))"

section \<open>Notions of the specification\<close>

text \<open>The one-period operator applied \<open>k\<close> times to a first guess, the values of that
  iterate on the grid, and the norm of the \<open>k\<close>-th change on the grid.\<close>

fun iterates ::
  "'v arith \<Rightarrow> 'v LucasEconomy \<Rightarrow> 'v list \<Rightarrow> 'v Pfunc \<Rightarrow> nat \<Rightarrow> error + 'v Pfunc" where
  "iterates F self g f 0 = Inr f"
| "iterates F self g f (Suc k) =
     (case iterates F self g f k of Inl e \<Rightarrow> Inl e | Inr p \<Rightarrow> priceOnePeriod F self p g)"

definition grid_values ::
  "'v arith \<Rightarrow> 'v LucasEconomy \<Rightarrow> 'v list \<Rightarrow> 'v Pfunc \<Rightarrow> nat \<Rightarrow> error + 'v list" where
  "grid_values F self g f k =
     (case iterates F self g f k of Inl e \<Rightarrow> Inl e | Inr p \<Rightarrow> call_vec F p g)"

definition step_norm ::
  "'v arith \<Rightarrow> 'v LucasEconomy \<Rightarrow> 'v list \<Rightarrow> 'v Pfunc \<Rightarrow> nat \<Rightarrow> error + 'v" where
  "step_norm F self g f k =
     (case grid_values F self g f (k - 1) of
        Inl e \<Rightarrow> Inl e
      | Inr a \<Rightarrow>
          (case grid_values F self g f k of
             Inl e \<Rightarrow> Inl e
           | Inr b \<Rightarrow> Inr (l2norm F (map2 (fsub F) a b))))"

text \<open>
  What holds of the local variables of \<open>solve\<close> at every test of its loop condition, for
  the first guess \<open>f\<close>, the grid \<open>g\<close>, the tolerance and the iteration cap: before the first
  iteration the norm is \<open>tol + 1\<close>; afterwards it is the norm of the last change, and the
  loop was entered, so \<open>tol + 1 > tol\<close> held.
\<close>

definition run_inv ::
  "'v arith \<Rightarrow> 'v LucasEconomy \<Rightarrow> 'v list \<Rightarrow> 'v Pfunc \<Rightarrow> 'v \<Rightarrow> nat \<Rightarrow> 'v solve_locals \<Rightarrow> bool" where
  "run_inv F self g f tol m s \<longleftrightarrow>
     it s \<le> m \<and> iterates F self g f (it s) = Inr (Pf_0 s) \<and> call_vec F (Pf_0 s) g = Inr (P_0 s)
     \<and> (\<forall>k. 1 \<le> k \<and> k < it s \<longrightarrow> (\<exists>n. step_norm F self g f k = Inr n \<and> flt F tol n))
     \<and> (if it s = 0 then normv s = fadd F tol (fnum F 1)
         else step_norm F self g f (it s) = Inr (normv s) \<and> flt F tol (fadd F tol (fnum F 1)))"

text \<open>
  Extrapolation below the grid: the value at \<open>x\<close> of the line through the first two points
  of an interpolant; and what it is for a pricing function to extrapolate below the grid
  \<open>g\<close>: it is an interpolant over \<open>g\<close> with one value for each grid point, it has a value at
  every float, and at every number that is not above the first grid point that value is
  the one of the line through its first two points.
\<close>

definition first_segment :: "'v arith \<Rightarrow> 'v list \<Rightarrow> 'v list \<Rightarrow> 'v \<Rightarrow> 'v" where
  "first_segment F xs ys x =
     fadd F
       (fmul F (fsub F (fnum F 1) (fdiv F (fsub F x (xs ! 0)) (fsub F (xs ! 1) (xs ! 0))))
          (ys ! 0))
       (fmul F (fdiv F (fsub F x (xs ! 0)) (fsub F (xs ! 1) (xs ! 0))) (ys ! 1))"

definition extrapolates_below :: "'v arith \<Rightarrow> 'v Pfunc \<Rightarrow> 'v list \<Rightarrow> bool" where
  "extrapolates_below F p g \<longleftrightarrow>
     (\<exists>ys. p = LinearInterp g ys True \<and> length ys = length g
        \<and> (\<forall>x. \<exists>v. call F p x = Inr v)
        \<and> (\<forall>x. feq F x x \<and> \<not> flt F (g ! 0) x \<longrightarrow> call F p x = Inr (first_segment F g ys x)))"

subsection \<open>Exact arithmetic\<close>

text \<open>
  The arithmetic of the real numbers, without rounding, overflow or special values: the
  arithmetic in which the formulas of the specification are read.
\<close>

definition exact :: "real arith" where
  "exact =
     \<lparr>fnum = of_int, fadd = (+), fsub = (-), fmul = (*), fdiv = (/), fneg = uminus,
      fpow = (powr), fexp = exp, flog = ln, fsqrt = sqrt, flt = (<), fle = (\<le>), feq = (=),
      py_square = (\<lambda>x. Inr (x\<^sup>2))\<rparr>"

text \<open>
  The right-hand side of the pricing equation at the log-dividend \<open>x\<close>, as the
  specification words it: the discount factor times the sum over the shock support of
  probability times marginal utility of dividend growth times future price plus future
  dividend.
\<close>

definition pricing_rhs :: "real LucasEconomy \<Rightarrow> (real \<Rightarrow> real) \<Rightarrow> real \<Rightarrow> real" where
  "pricing_rhs self f x =
     DiscFac self *
       (\<Sum>k<nApprox (DivProcess self).
          pmf (ShkAppDstn (DivProcess self)) ! k *
          uP exact self
            (exp (alpha (DivProcess self) * x + X (ShkAppDstn (DivProcess self)) ! k) / exp x) *
          (f (alpha (DivProcess self) * x + X (ShkAppDstn (DivProcess self)) ! k)
             + exp (alpha (DivProcess self) * x + X (ShkAppDstn (DivProcess self)) ! k)))"

text \<open>The unconditional mean and standard deviation of the log-dividend process.\<close>

definition uncond_mean :: "real DivProcess \<Rightarrow> real" where
  "uncond_mean dp = shock_mean dp / (1 - alpha dp)"

definition uncond_sd :: "real DivProcess \<Rightarrow> real" where
  "uncond_sd dp = shock_sd dp / sqrt (1 - (alpha dp)\<^sup>2)"


subsection \<open>An arithmetic with infinities and not-a-number\<close>

text \<open>
  Float values with the special values of IEEE 754 and their rules. Results that are
  numbers are exact; there is no rounding and one zero only, which is positive, and only
  \<open>exp\<close> and Python's square overflow (at \<open>2 ^ 1024\<close>). This arithmetic serves for the
  examples in which a special value decides what \<open>solve\<close> does.
\<close>

datatype fl = Fin real | PInf | NInf | NaN

fun fl_neg :: "fl \<Rightarrow> fl" where
  "fl_neg (Fin a) = Fin (- a)"
| "fl_neg PInf = NInf"
| "fl_neg NInf = PInf"
| "fl_neg NaN = NaN"

fun fl_add :: "fl \<Rightarrow> fl \<Rightarrow> fl" where
  "fl_add NaN y = NaN"
| "fl_add x NaN = NaN"
| "fl_add (Fin a) (Fin b) = Fin (a + b)"
| "fl_add PInf NInf = NaN"
| "fl_add NInf PInf = NaN"
| "fl_add PInf y = PInf"
| "fl_add x PInf = PInf"
| "fl_add NInf y = NInf"
| "fl_add x NInf = NInf"

definition fl_sub :: "fl \<Rightarrow> fl \<Rightarrow> fl" where
  "fl_sub x y = fl_add x (fl_neg y)"

fun fl_mul :: "fl \<Rightarrow> fl \<Rightarrow> fl" where
  "fl_mul NaN y = NaN"
| "fl_mul x NaN = NaN"
| "fl_mul (Fin a) (Fin b) = Fin (a * b)"
| "fl_mul (Fin a) PInf = (if a = 0 then NaN else if 0 < a then PInf else NInf)"
| "fl_mul (Fin a) NInf = (if a = 0 then NaN else if 0 < a then NInf else PInf)"
| "fl_mul PInf (Fin b) = (if b = 0 then NaN else if 0 < b then PInf else NInf)"
| "fl_mul NInf (Fin b) = (if b = 0 then NaN else if 0 < b then NInf else PInf)"
| "fl_mul PInf PInf = PInf"
| "fl_mul NInf NInf = PInf"
| "fl_mul PInf NInf = NInf"
| "fl_mul NInf PInf = NInf"

fun fl_div :: "fl \<Rightarrow> fl \<Rightarrow> fl" where
  "fl_div NaN y = NaN"
| "fl_div x NaN = NaN"
| "fl_div (Fin a) (Fin b) =
     (if b = 0 then (if a = 0 then NaN else if 0 < a then PInf else NInf) else Fin (a / b))"
| "fl_div (Fin a) PInf = Fin 0"
| "fl_div (Fin a) NInf = Fin 0"
| "fl_div PInf (Fin b) = (if 0 \<le> b then PInf else NInf)"
| "fl_div NInf (Fin b) = (if 0 \<le> b then NInf else PInf)"
| "fl_div PInf PInf = NaN"
| "fl_div PInf NInf = NaN"
| "fl_div NInf PInf = NaN"
| "fl_div NInf NInf = NaN"

fun fl_exp :: "fl \<Rightarrow> fl" where
  "fl_exp (Fin a) = (if 2 ^ 1024 \<le> exp a then PInf else Fin (exp a))"
| "fl_exp PInf = PInf"
| "fl_exp NInf = Fin 0"
| "fl_exp NaN = NaN"

fun fl_log :: "fl \<Rightarrow> fl" where
  "fl_log (Fin a) = (if 0 < a then Fin (ln a) else if a = 0 then NInf else NaN)"
| "fl_log PInf = PInf"
| "fl_log NInf = NaN"
| "fl_log NaN = NaN"

fun fl_sqrt :: "fl \<Rightarrow> fl" where
  "fl_sqrt (Fin a) = (if 0 \<le> a then Fin (sqrt a) else NaN)"
| "fl_sqrt PInf = PInf"
| "fl_sqrt NInf = NaN"
| "fl_sqrt NaN = NaN"

text \<open>The power of C: \<open>x ** 0\<close> and \<open>1 ** y\<close> are one whatever the other argument is.\<close>

fun fl_pow :: "fl \<Rightarrow> fl \<Rightarrow> fl" where
  "fl_pow x (Fin b) =
     (if b = 0 then Fin 1
      else case x of
        Fin a \<Rightarrow>
          (if 0 < a then Fin (a powr b)
           else if a = 0 then (if b < 0 then PInf else Fin 0)
           else if b \<in> \<int> then Fin ((if even \<lfloor>b\<rfloor> then 1 else - 1) * (- a) powr b)
           else NaN)
      | PInf \<Rightarrow> (if b < 0 then Fin 0 else PInf)
      | NInf \<Rightarrow> (if b < 0 then Fin 0 else if b \<in> \<int> \<and> odd \<lfloor>b\<rfloor> then NInf else PInf)
      | NaN \<Rightarrow> NaN)"
| "fl_pow x PInf =
     (case x of
        Fin a \<Rightarrow> (if \<bar>a\<bar> = 1 then Fin 1 else if \<bar>a\<bar> < 1 then Fin 0 else PInf)
      | PInf \<Rightarrow> PInf
      | NInf \<Rightarrow> PInf
      | NaN \<Rightarrow> NaN)"
| "fl_pow x NInf =
     (case x of
        Fin a \<Rightarrow> (if \<bar>a\<bar> = 1 then Fin 1 else if \<bar>a\<bar> < 1 then PInf else Fin 0)
      | PInf \<Rightarrow> Fin 0
      | NInf \<Rightarrow> Fin 0
      | NaN \<Rightarrow> NaN)"
| "fl_pow x NaN = (if x = Fin 1 then Fin 1 else NaN)"

fun fl_lt :: "fl \<Rightarrow> fl \<Rightarrow> bool" where
  "fl_lt (Fin a) (Fin b) = (a < b)"
| "fl_lt (Fin a) PInf = True"
| "fl_lt NInf (Fin b) = True"
| "fl_lt NInf PInf = True"
| "fl_lt x y = False"

fun fl_le :: "fl \<Rightarrow> fl \<Rightarrow> bool" where
  "fl_le (Fin a) (Fin b) = (a \<le> b)"
| "fl_le (Fin a) PInf = True"
| "fl_le NInf (Fin b) = True"
| "fl_le NInf PInf = True"
| "fl_le PInf PInf = True"
| "fl_le NInf NInf = True"
| "fl_le x y = False"

fun fl_eq :: "fl \<Rightarrow> fl \<Rightarrow> bool" where
  "fl_eq (Fin a) (Fin b) = (a = b)"
| "fl_eq PInf PInf = True"
| "fl_eq NInf NInf = True"
| "fl_eq x y = False"

fun fl_square :: "fl \<Rightarrow> error + fl" where
  "fl_square (Fin a) = (if 2 ^ 1024 \<le> a\<^sup>2 then Inl OverflowError else Inr (Fin (a\<^sup>2)))"
| "fl_square PInf = Inr PInf"
| "fl_square NInf = Inr PInf"
| "fl_square NaN = Inr NaN"

definition ieee :: "fl arith" where
  "ieee =
     \<lparr>fnum = (\<lambda>i. Fin (of_int i)), fadd = fl_add, fsub = fl_sub, fmul = fl_mul, fdiv = fl_div,
      fneg = fl_neg, fpow = fl_pow, fexp = fl_exp, flog = fl_log, fsqrt = fl_sqrt,
      flt = fl_lt, fle = fl_le, feq = fl_eq, py_square = fl_square\<rparr>"

subsection \<open>Example economies\<close>

text \<open>The discretisation with a single node: the mean, with probability one.\<close>

definition one_node :: "'v arith \<Rightarrow> 'v \<Rightarrow> 'v \<Rightarrow> nat \<Rightarrow> 'v DiscreteDistribution" where
  "one_node F mu sigma N = \<lparr>X = [mu], pmf = [fnum F 1]\<rparr>"

text \<open>Independent and identically distributed log-dividends with one node, and economies
  with log utility over them: discount factors one half, nine tenths, and two; the first
  of them once more over the arithmetic with special values.\<close>

definition exDiv :: "real DivProcess" where
  "exDiv = DivProcess_init (one_node exact) 0 (1 / 10) 0 1"

definition exEcon :: "real LucasEconomy" where
  "exEcon = LucasEconomy_init 1 (1 / 2) exDiv"

definition exEcon9 :: "real LucasEconomy" where
  "exEcon9 = LucasEconomy_init 1 (9 / 10) exDiv"

definition badEcon :: "real LucasEconomy" where
  "badEcon = LucasEconomy_init 1 2 exDiv"

definition flDiv :: "fl DivProcess" where
  "flDiv = DivProcess_init (one_node ieee) (Fin 0) (Fin (1 / 10)) (Fin 0) 1"

definition flEcon :: "fl LucasEconomy" where
  "flEcon = LucasEconomy_init (Fin 1) (Fin (1 / 2)) flDiv"

text \<open>A dividend process without persistence whose shock standard deviation is the float
  infinity.\<close>

definition infDiv :: "fl DivProcess" where
  "infDiv = DivProcess_init (one_node ieee) (Fin 0) PInf (Fin 0) 1"


section \<open>Arrays\<close>

lemma collect_map_Inr:
  "(\<And>x. x \<in> set xs \<Longrightarrow> f x = Inr (g x)) \<Longrightarrow> collect (map f xs) = Inr (map g xs)"
  by (induction xs) simp_all

lemma collect_length: "collect rs = Inr vs \<Longrightarrow> length vs = length rs"
  by (induction rs arbitrary: vs) (auto split: sum.splits)

lemma call_vec_length: "call_vec F f v = Inr w \<Longrightarrow> length w = length v"
  by (auto simp: call_vec_def dest: collect_length)

lemma call_vec_total:
  "(\<And>y. call F f y = Inr (h y)) \<Longrightarrow> call_vec F f v = Inr (map h v)"
  by (simp add: call_vec_def collect_map_Inr)

lemma call_mat_total:
  "(\<And>y. call F f y = Inr (h y)) \<Longrightarrow> call_mat F f A = Inr (map (map h) A)"
  by (simp add: call_mat_def call_vec_total collect_map_Inr)

text \<open>Every array of \<open>priceOnePeriod\<close> has one row for each grid point and one column for
  each shock; the lemmas below bring the array operations into that form.\<close>

lemma tile_col_rows: "tile_col v n = map (\<lambda>a. map (\<lambda>k. a) [0..<n]) v"
  by (simp add: tile_col_def map_replicate_trivial)

lemma tile_row_rows:
  "tile_row w (length v) = map (\<lambda>a. map (\<lambda>k. w ! k) [0..<length w]) v"
  by (simp add: tile_row_def map_nth map_replicate_const)

lemma ew_rows: "ew f (map (\<lambda>a. map (F a) ks) v) = map (\<lambda>a. map (\<lambda>k. f (F a k)) ks) v"
  by (simp add: ew_def comp_def)

lemma map2_same: "map2 f (map F ks) (map G ks) = map (\<lambda>k. f (F k) (G k)) ks"
  by (induction ks) simp_all

lemma ew2_rows:
  "ew2 f (map (\<lambda>a. map (F a) ks) v) (map (\<lambda>a. map (G a) ks) v)
     = map (\<lambda>a. map (\<lambda>k. f (F a k) (G a k)) ks) v"
  by (simp add: ew2_def map2_same)

section \<open>Exact arithmetic\<close>

lemma exact_simps [simp]:
  "fnum exact i = of_int i" "fadd exact a b = a + b" "fsub exact a b = a - b"
  "fmul exact a b = a * b" "fdiv exact a b = a / b" "fneg exact a = - a"
  "fpow exact a b = a powr b" "fexp exact a = exp a" "flog exact a = ln a"
  "fsqrt exact a = sqrt a" "flt exact a b \<longleftrightarrow> a < b" "fle exact a b \<longleftrightarrow> a \<le> b"
  "feq exact a b \<longleftrightarrow> a = b" "py_square exact a = Inr (a\<^sup>2)"
  by (simp_all add: exact_def)

lemma fadd_exact [simp]: "fadd exact = (+)" and fsub_exact [simp]: "fsub exact = (-)"
  and fmul_exact [simp]: "fmul exact = (*)" and fdiv_exact [simp]: "fdiv exact = (/)"
  and fexp_exact [simp]: "fexp exact = exp"
  by (simp_all add: exact_def)

lemma fsum_exact [simp]: "fsum exact v = sum_list v"
  by (simp add: fsum_def sum_list.eq_foldr)

lemma l2norm_exact: "l2norm exact v = sqrt (sum_list (map (\<lambda>a. a * a) v))"
  by (simp add: l2norm_def)

lemma searchsorted_exact: "searchsorted exact a v = length (takeWhile (\<lambda>e. e < v) a)"
  by (simp add: searchsorted_def)

section \<open>The interpolant\<close>

lemma searchsorted_le: "searchsorted F a v \<le> length a"
  by (simp add: searchsorted_def length_takeWhile_le)

lemma segment_index:
  assumes "2 \<le> length xs"
  shows "1 \<le> max (searchsorted F (butlast xs) x) 1"
    "max (searchsorted F (butlast xs) x) 1 < length xs"
  using assms searchsorted_le [of F "butlast xs" x] by auto

lemma LinearInterp_eval_segment:
  assumes "i = max (searchsorted F (butlast xs) x) 1" and "i < length xs" and "i < length ys"
  shows "LinearInterp_eval F xs ys True x =
     Inr (fadd F
       (fmul F (fsub F (fnum F 1)
          (fdiv F (fsub F x (xs ! (i - 1))) (fsub F (xs ! i) (xs ! (i - 1))))) (ys ! (i - 1)))
       (fmul F (fdiv F (fsub F x (xs ! (i - 1))) (fsub F (xs ! i) (xs ! (i - 1)))) (ys ! i)))"
  using assms by (simp add: LinearInterp_eval_def Let_def not_le)

lemma LinearInterp_eval_total:
  assumes len: "2 \<le> length xs" and ys: "length ys = length xs"
  shows "\<exists>v. LinearInterp_eval F xs ys True x = Inr v"
proof -
  define i where "i = max (searchsorted F (butlast xs) x) 1"
  have i: "i < length xs" using segment_index [OF len, of F x] by (simp add: i_def)
  with LinearInterp_eval_segment [OF i_def i, of ys] ys show ?thesis
    by simp
qed

lemma searchsorted_first:
  assumes "2 \<le> length xs" and "\<not> flt F (xs ! 0) x" and "feq F x x"
  shows "searchsorted F (butlast xs) x = 0"
proof -
  from assms(1) have n: "0 < length (butlast xs)" by simp
  then obtain a as where c: "butlast xs = a # as"
    by (cases "butlast xs") auto
  from nth_butlast [OF n] c have "a = xs ! 0" by simp
  with c assms(2,3) show ?thesis by (simp add: searchsorted_def)
qed

lemma LinearInterp_eval_below:
  assumes len: "2 \<le> length xs" and ys: "length ys = length xs"
    and x: "\<not> flt F (xs ! 0) x" "feq F x x"
  shows "LinearInterp_eval F xs ys True x =
     Inr (fadd F
       (fmul F (fsub F (fnum F 1) (fdiv F (fsub F x (xs ! 0)) (fsub F (xs ! 1) (xs ! 0)))) (ys ! 0))
       (fmul F (fdiv F (fsub F x (xs ! 0)) (fsub F (xs ! 1) (xs ! 0))) (ys ! 1)))"
proof -
  have i: "1 = max (searchsorted F (butlast xs) x) 1"
    by (simp add: searchsorted_first [OF len x])
  from LinearInterp_eval_segment [OF i, of ys] len ys show ?thesis by simp
qed

text \<open>In exact arithmetic an interpolant over an increasing grid takes its values at the
  grid points.\<close>

lemma searchsorted_grid_point:
  assumes srt: "sorted_wrt (<) xs" and j: "j < length xs"
  shows "searchsorted exact (butlast xs) (xs ! j) = min j (length xs - 1)"
proof -
  have "takeWhile (\<lambda>e. e < xs ! j) (butlast xs) = take j (butlast xs)"
  proof (rule takeWhile_eq_take_P_nth)
    fix i assume "i < j" "i < length (butlast xs)"
    then show "butlast xs ! i < xs ! j"
      using srt j by (simp add: nth_butlast sorted_wrt_nth_less)
  next
    assume "j < length (butlast xs)"
    then show "\<not> butlast xs ! j < xs ! j" by (simp add: nth_butlast)
  qed
  then show ?thesis by (simp add: searchsorted_exact min_def)
qed

lemma LinearInterp_eval_grid_point:
  assumes len: "2 \<le> length xs" and srt: "sorted_wrt (<) xs" and ys: "length ys = length xs"
    and j: "j < length xs"
  shows "LinearInterp_eval exact xs ys True (xs ! j) = Inr (ys ! j)"
proof (cases "j = 0")
  case True
  have i: "1 = max (searchsorted exact (butlast xs) (xs ! j)) 1"
    unfolding searchsorted_grid_point [OF srt j] using True by simp
  have "xs ! 0 < xs ! 1" using len by (intro sorted_wrt_nth_less [OF srt]) auto
  with LinearInterp_eval_segment [OF i, of ys] len ys True show ?thesis
    by simp
next
  case False
  then have i: "j = max (searchsorted exact (butlast xs) (xs ! j)) 1"
    unfolding searchsorted_grid_point [OF srt j] using j by simp
  have "xs ! (j - 1) < xs ! j" using j False by (intro sorted_wrt_nth_less [OF srt]) auto
  with LinearInterp_eval_segment [OF i, of ys] j ys show ?thesis
    by simp
qed

lemma call_vec_grid:
  assumes len: "2 \<le> length xs" and srt: "sorted_wrt (<) xs" and ys: "length ys = length xs"
  shows "call_vec exact (LinearInterp xs ys True) xs = Inr ys"
proof -
  have "collect (map (\<lambda>j. call exact (LinearInterp xs ys True) (xs ! j)) [0..<length xs])
      = Inr (map (\<lambda>j. ys ! j) [0..<length xs])"
    by (rule collect_map_Inr) (simp add: LinearInterp_eval_grid_point [OF len srt ys])
  moreover have "map (\<lambda>j. call exact (LinearInterp xs ys True) (xs ! j)) [0..<length xs]
      = map (call exact (LinearInterp xs ys True)) xs"
    by (rule nth_equalityI) simp_all
  moreover have "map (\<lambda>j. ys ! j) [0..<length xs] = ys"
    using ys by (metis map_nth)
  ultimately show ?thesis by (simp add: call_vec_def)
qed

section \<open>The one-period operator\<close>

lemma priceOnePeriod_total:
  assumes shape: "length (X (ShkAppDstn (DivProcess self))) = nApprox (DivProcess self)"
      "length (pmf (ShkAppDstn (DivProcess self))) = nApprox (DivProcess self)"
    and tot: "\<And>y. call exact f y = Inr (h y)"
  shows "priceOnePeriod exact self f g = Inr (LinearInterp g (map (pricing_rhs self h) g) True)"
proof -
  have rowsX: "tile_row (X (ShkAppDstn (DivProcess self))) (length g)
       = map (\<lambda>a. map (\<lambda>k. X (ShkAppDstn (DivProcess self)) ! k) [0..<nApprox (DivProcess self)]) g"
    using tile_row_rows [of "X (ShkAppDstn (DivProcess self))" g] shape by simp
  have rowsP: "tile_row (pmf (ShkAppDstn (DivProcess self))) (length g)
       = map (\<lambda>a. map (\<lambda>k. pmf (ShkAppDstn (DivProcess self)) ! k) [0..<nApprox (DivProcess self)]) g"
    using tile_row_rows [of "pmf (ShkAppDstn (DivProcess self))" g] shape by simp
  show ?thesis
    unfolding priceOnePeriod_def Let_def rowsX rowsP tile_col_rows
    by (simp add: shape ew_rows ew2_rows call_mat_total [OF tot] comp_def
        pricing_rhs_def sum_distrib_left mult_ac interv_sum_list_conv_sum_set_nat
        lessThan_atLeast0)
qed

lemmas ex_defs =
  exEcon_def exEcon9_def badEcon_def exDiv_def one_node_def DivProcess_init_def
  LucasEconomy_init_def

lemma priceOnePeriod_shape:
  assumes "priceOnePeriod F self f g = Inr p"
  shows "\<exists>ys. p = LinearInterp g ys True \<and> length ys = length g"
proof (cases "call_mat F f (ew2 (fadd F) (ew (\<lambda>v. fmul F (alpha (DivProcess self)) v)
          (tile_col g (nApprox (DivProcess self))))
          (tile_row (X (ShkAppDstn (DivProcess self))) (length g)))")
  case (Inl e)
  with assms show ?thesis
    by (simp add: priceOnePeriod_def Let_def split: if_splits)
next
  case (Inr P)
  from collect_length [OF Inr [unfolded call_mat_def]] have "length P = length g"
    by (simp add: ew_def ew2_def tile_col_def tile_row_def)
  with assms Inr show ?thesis
    by (simp add: priceOnePeriod_def Let_def split: if_splits)
      (auto simp: ew_def ew2_def tile_col_def tile_row_def)
qed

lemma priceOnePeriod_returns:
  assumes shape: "length (X (ShkAppDstn (DivProcess self))) = nApprox (DivProcess self)"
      "length (pmf (ShkAppDstn (DivProcess self))) = nApprox (DivProcess self)"
    and tot: "\<forall>y. \<exists>v. call F f y = Inr v"
  shows "\<exists>p. priceOnePeriod F self f g = Inr p"
proof -
  from tot obtain h where h: "\<And>y. call F f y = Inr (h y)" by metis
  show ?thesis
    by (simp add: priceOnePeriod_def Let_def shape call_mat_total [OF h])
qed

text \<open>
  C2. For every candidate pricing function \<open>f\<close> (one that has a value \<open>h y\<close> at every
  log-dividend \<open>y\<close>), every grid and every economy whose discretised shock has \<open>nApprox\<close>
  nodes and probabilities, \<open>priceOnePeriod\<close> returns the linear interpolant over the grid
  (with extrapolation below it) whose value at the grid point \<open>x\<close> is, in exact
  arithmetic, the discount factor times the sum over the shock support of
  \<open>pmf_k * u'(exp (alpha * x + s_k) / exp x) * (f (alpha * x + s_k) + exp (alpha * x + s_k))\<close>.
\<close>

theorem priceOnePeriod_formula:
  assumes "length (X (ShkAppDstn (DivProcess self))) = nApprox (DivProcess self)"
    and "length (pmf (ShkAppDstn (DivProcess self))) = nApprox (DivProcess self)"
    and "\<And>y. call exact f y = Inr (h y)"
  shows "priceOnePeriod exact self f g =
      Inr (LinearInterp g
        (map (\<lambda>x. DiscFac self *
           (\<Sum>k<nApprox (DivProcess self).
              pmf (ShkAppDstn (DivProcess self)) ! k *
              CRRAutilityP exact
                (exp (alpha (DivProcess self) * x + X (ShkAppDstn (DivProcess self)) ! k) / exp x)
                (CRRA self) *
              (h (alpha (DivProcess self) * x + X (ShkAppDstn (DivProcess self)) ! k)
                 + exp (alpha (DivProcess self) * x + X (ShkAppDstn (DivProcess self)) ! k)))) g)
        True)
    \<and> (\<forall>c gam. CRRAutilityP exact c gam = c powr (- gam))"
  using priceOnePeriod_total [OF assms, of g]
  by (simp add: pricing_rhs_def uP_def CRRAutilityP_def)

theorem priceOnePeriod_formula_witness:
  "priceOnePeriod exact exEcon (ConstantFunction 0) [0, ln 2]
     = Inr (LinearInterp [0, ln 2] [1 / 2, 1] True)"
proof -
  have a: "length (X (ShkAppDstn (DivProcess exEcon))) = nApprox (DivProcess exEcon)"
    by (simp add: ex_defs)
  have b: "length (pmf (ShkAppDstn (DivProcess exEcon))) = nApprox (DivProcess exEcon)"
    by (simp add: ex_defs)
  have c: "\<And>y. call exact (ConstantFunction 0) y = Inr ((\<lambda>y. 0) y)"
    by simp
  from priceOnePeriod_formula [OF a b c, of "[0, ln 2]"] show ?thesis
    by (simp add: ex_defs CRRAutilityP_def)
qed

section \<open>The loop of solve\<close>

lemma solve_loop_stop:
  "\<not> (flt F tol (normv s) \<and> it s < m) \<Longrightarrow> solve_loop F self g tol m disp s = Inr s"
  by (subst solve_loop.simps) auto

lemma solve_loop_step:
  assumes "flt F tol (normv s)" "it s < m"
    and "priceOnePeriod F self (Pf_0 s) g = Inr Pf" and "call_vec F Pf g = Inr P"
  shows "solve_loop F self g tol m disp s =
     solve_loop F self g tol m disp
       \<lparr>normv = l2norm F (map2 (fsub F) (P_0 s) P), Pf_0 = Pf, P_0 = P, it = it s + 1,
        stdout = stdout s @
          (if disp then [IterLine (it s + 1) (l2norm F (map2 (fsub F) (P_0 s) P))] else [])\<rparr>"
  using assms by (subst solve_loop.simps) simp

lemma solve_loop_Inr:
  assumes "solve_loop F self g tol m disp s = Inr st" "flt F tol (normv s)" "it s < m"
  shows "\<exists>Pf P. priceOnePeriod F self (Pf_0 s) g = Inr Pf \<and> call_vec F Pf g = Inr P"
  using assms by (subst (asm) solve_loop.simps) (simp split: sum.splits)

lemma solve_loop_rule:
  assumes run: "solve_loop F self g tol m disp s = Inr st"
    and init: "I s"
    and step: "\<And>s Pf P. I s \<Longrightarrow> flt F tol (normv s) \<Longrightarrow> it s < m
        \<Longrightarrow> priceOnePeriod F self (Pf_0 s) g = Inr Pf \<Longrightarrow> call_vec F Pf g = Inr P
        \<Longrightarrow> I \<lparr>normv = l2norm F (map2 (fsub F) (P_0 s) P), Pf_0 = Pf, P_0 = P, it = it s + 1,
               stdout = stdout s @
                 (if disp then [IterLine (it s + 1) (l2norm F (map2 (fsub F) (P_0 s) P))]
                  else [])\<rparr>"
  shows "I st \<and> \<not> (flt F tol (normv st) \<and> it st < m)"
  using run init
proof (induction "m - it s" arbitrary: s rule: less_induct)
  case less
  show ?case
  proof (cases "flt F tol (normv s) \<and> it s < m")
    case False
    with less.prems solve_loop_stop [OF False, of self g disp] show ?thesis by simp
  next
    case True
    then have c: "flt F tol (normv s)" "it s < m" by simp_all
    from solve_loop_Inr [OF less.prems(1) c] obtain Pf P
      where pf: "priceOnePeriod F self (Pf_0 s) g = Inr Pf" and p: "call_vec F Pf g = Inr P"
      by blast
    let ?s' = "\<lparr>normv = l2norm F (map2 (fsub F) (P_0 s) P), Pf_0 = Pf, P_0 = P, it = it s + 1,
               stdout = stdout s @
                 (if disp then [IterLine (it s + 1) (l2norm F (map2 (fsub F) (P_0 s) P))]
                  else [])\<rparr>"
    have run': "solve_loop F self g tol m disp ?s' = Inr st"
      using solve_loop_step [OF c pf p, of disp] less.prems(1) by simp
    have inv': "I ?s'"
      by (rule step [OF less.prems(2) c pf p])
    have dec: "m - it ?s' < m - it s"
      using c by simp
    show ?thesis
      by (rule less.hyps [OF dec run' inv'])
  qed
qed

lemma solve_loop_returns:
  assumes shape: "length (X (ShkAppDstn (DivProcess self))) = nApprox (DivProcess self)"
      "length (pmf (ShkAppDstn (DivProcess self))) = nApprox (DivProcess self)"
    and len: "2 \<le> length g"
    and tot: "\<forall>y. \<exists>v. call F (Pf_0 s) y = Inr v"
  shows "\<exists>st. solve_loop F self g tol m disp s = Inr st"
  using tot
proof (induction "m - it s" arbitrary: s rule: less_induct)
  case less
  show ?case
  proof (cases "flt F tol (normv s) \<and> it s < m")
    case False
    from solve_loop_stop [OF False, of self g disp] show ?thesis by simp
  next
    case True
    then have c: "flt F tol (normv s)" "it s < m" by simp_all
    from priceOnePeriod_returns [OF shape less.prems, of g] obtain Pf
      where pf: "priceOnePeriod F self (Pf_0 s) g = Inr Pf" by blast
    from priceOnePeriod_shape [OF pf] obtain ys
      where Pf: "Pf = LinearInterp g ys True" and ys: "length ys = length g" by blast
    have tot': "\<forall>y. \<exists>v. call F Pf y = Inr v"
      using LinearInterp_eval_total [OF len ys, of F] by (simp add: Pf)
    then obtain h where h: "\<And>y. call F Pf y = Inr (h y)" by metis
    have p: "call_vec F Pf g = Inr (map h g)"
      by (rule call_vec_total [OF h])
    let ?s' = "\<lparr>normv = l2norm F (map2 (fsub F) (P_0 s) (map h g)), Pf_0 = Pf,
               P_0 = map h g, it = it s + 1,
               stdout = stdout s @
                 (if disp then [IterLine (it s + 1) (l2norm F (map2 (fsub F) (P_0 s) (map h g)))]
                  else [])\<rparr>"
    have eq: "solve_loop F self g tol m disp s = solve_loop F self g tol m disp ?s'"
      by (rule solve_loop_step [OF c pf p])
    have tot'': "\<forall>y. \<exists>v. call F (Pf_0 ?s') y = Inr v"
      using tot' by simp
    have dec: "m - it ?s' < m - it s"
      using c by simp
    from less.hyps [OF dec tot''] eq show ?thesis by simp
  qed
qed

lemma run_inv_step:
  assumes inv: "run_inv F self g f tol m s" and c: "flt F tol (normv s)" "it s < m"
    and pf: "priceOnePeriod F self (Pf_0 s) g = Inr Pf" and p: "call_vec F Pf g = Inr P"
  shows "run_inv F self g f tol m \<lparr>normv = l2norm F (map2 (fsub F) (P_0 s) P), Pf_0 = Pf, P_0 = P,
      it = it s + 1, stdout = out\<rparr>"
proof -
  from inv have a: "iterates F self g f (it s) = Inr (Pf_0 s)" "call_vec F (Pf_0 s) g = Inr (P_0 s)"
    and b: "\<forall>k. 1 \<le> k \<and> k < it s \<longrightarrow> (\<exists>n. step_norm F self g f k = Inr n \<and> flt F tol n)"
    and d: "it s \<noteq> 0 \<Longrightarrow> step_norm F self g f (it s) = Inr (normv s)"
    and e: "it s \<noteq> 0 \<Longrightarrow> flt F tol (fadd F tol (fnum F 1))"
    and z: "it s = 0 \<Longrightarrow> normv s = fadd F tol (fnum F 1)"
    by (auto simp: run_inv_def split: if_splits)
  have n: "step_norm F self g f (Suc (it s)) = Inr (l2norm F (map2 (fsub F) (P_0 s) P))"
    using a pf p by (simp add: step_norm_def grid_values_def)
  have entered: "flt F tol (fadd F tol (fnum F 1))"
    using c(1) e z by (cases "it s = 0") simp_all
  have "\<exists>n. step_norm F self g f k = Inr n \<and> flt F tol n" if "1 \<le> k" "k < Suc (it s)" for k
  proof (cases "k < it s")
    case True with b that show ?thesis by simp
  next
    case False
    with that have "k = it s" "it s \<noteq> 0" by auto
    with d c show ?thesis by simp
  qed
  with a pf p c n entered show ?thesis by (simp add: run_inv_def)
qed

lemma solve_run_loop:
  assumes "solve_run F self pf lg tol m disp = Inr st"
  shows "\<exists>g P0. (case lg of None \<Rightarrow> getLogdGrid F (DivProcess self) 100 | Some g' \<Rightarrow> Inr g') = Inr g
     \<and> call_vec F (case pf of None \<Rightarrow> ConstantFunction (fnum F 0) | Some f' \<Rightarrow> f') g = Inr P0
     \<and> solve_loop F self g tol m disp
          \<lparr>normv = fadd F tol (fnum F 1),
           Pf_0 = (case pf of None \<Rightarrow> ConstantFunction (fnum F 0) | Some f' \<Rightarrow> f'),
           P_0 = P0, it = 0, stdout = []\<rparr> = Inr st"
proof (cases "case lg of None \<Rightarrow> getLogdGrid F (DivProcess self) 100 | Some g' \<Rightarrow> Inr g'")
  case (Inl e)
  with assms show ?thesis by (simp add: solve_run_def Let_def)
next
  case g: (Inr g)
  show ?thesis
  proof (cases "call_vec F (case pf of None \<Rightarrow> ConstantFunction (fnum F 0) | Some f' \<Rightarrow> f') g")
    case (Inl e)
    with assms g show ?thesis by (simp add: solve_run_def Let_def)
  next
    case (Inr P0)
    with assms g show ?thesis by (simp add: solve_run_def Let_def)
  qed
qed

lemma solve_run_inv:
  assumes run: "solve_run F self pf lg tol m disp = Inr st"
    and f: "f = (case pf of None \<Rightarrow> ConstantFunction (fnum F 0) | Some f' \<Rightarrow> f')"
    and g: "(case lg of None \<Rightarrow> getLogdGrid F (DivProcess self) 100 | Some g' \<Rightarrow> Inr g') = Inr g"
  shows "run_inv F self g f tol m st \<and> \<not> (flt F tol (normv st) \<and> it st < m)"
proof -
  from solve_run_loop [OF run] g f obtain P0 where P0: "call_vec F f g = Inr P0"
    and loop: "solve_loop F self g tol m disp
        \<lparr>normv = fadd F tol (fnum F 1), Pf_0 = f, P_0 = P0, it = 0, stdout = []\<rparr> = Inr st"
    by auto
  show ?thesis
  proof (rule solve_loop_rule [OF loop])
    show "run_inv F self g f tol m
        \<lparr>normv = fadd F tol (fnum F 1), Pf_0 = f, P_0 = P0, it = 0, stdout = []\<rparr>"
      using P0 by (simp add: run_inv_def)
  qed (rule run_inv_step)
qed

lemma solve_run_returns:
  assumes shape: "length (X (ShkAppDstn (DivProcess self))) = nApprox (DivProcess self)"
      "length (pmf (ShkAppDstn (DivProcess self))) = nApprox (DivProcess self)"
    and len: "2 \<le> length g"
    and tot: "\<forall>y. \<exists>v. call F f y = Inr v"
    and f: "f = (case pf of None \<Rightarrow> ConstantFunction (fnum F 0) | Some f' \<Rightarrow> f')"
    and g: "(case lg of None \<Rightarrow> getLogdGrid F (DivProcess self) 100 | Some g' \<Rightarrow> Inr g') = Inr g"
  shows "\<exists>st. solve_run F self pf lg tol m disp = Inr st"
proof -
  from tot obtain h where h: "\<And>y. call F f y = Inr (h y)" by metis
  have P0: "call_vec F f g = Inr (map h g)" by (rule call_vec_total [OF h])
  have "\<exists>st. solve_loop F self g tol m disp
      \<lparr>normv = fadd F tol (fnum F 1), Pf_0 = f, P_0 = map h g, it = 0, stdout = []\<rparr> = Inr st"
    by (rule solve_loop_returns [OF shape len]) (simp add: tot)
  with P0 f g show ?thesis by (simp add: solve_run_def Let_def)
qed

lemma solve_run_stdout:
  assumes "solve_run F self pf lg tol m disp = Inr st"
  shows "(\<not> disp \<longrightarrow> stdout st = []) \<and> MaxIterLine \<notin> set (stdout st)
     \<and> ConvergedLine \<notin> set (stdout st)"
proof -
  from solve_run_loop [OF assms] obtain g P0 where
    loop: "solve_loop F self g tol m disp
          \<lparr>normv = fadd F tol (fnum F 1),
           Pf_0 = (case pf of None \<Rightarrow> ConstantFunction (fnum F 0) | Some f' \<Rightarrow> f'),
           P_0 = P0, it = 0, stdout = []\<rparr> = Inr st"
    by blast
  have "((\<not> disp \<longrightarrow> stdout st = []) \<and> MaxIterLine \<notin> set (stdout st)
     \<and> ConvergedLine \<notin> set (stdout st)) \<and> \<not> (flt F tol (normv st) \<and> it st < m)"
    by (rule solve_loop_rule [OF loop,
        where I = "\<lambda>s. (\<not> disp \<longrightarrow> stdout s = []) \<and> MaxIterLine \<notin> set (stdout s)
           \<and> ConvergedLine \<notin> set (stdout s)"]) simp_all
  then show ?thesis by simp
qed

lemma solve_run_cap:
  assumes "solve_run F self pf lg tol m disp = Inr st"
  shows "it st \<le> m" "flt F tol (normv st) \<Longrightarrow> it st = m"
    "0 < m \<Longrightarrow> flt F tol (fadd F tol (fnum F 1)) \<Longrightarrow> 1 \<le> it st"
    "1 \<le> it st \<Longrightarrow> flt F tol (fadd F tol (fnum F 1))"
    "it st = 0 \<Longrightarrow> Pf_0 st = (case pf of None \<Rightarrow> ConstantFunction (fnum F 0) | Some f' \<Rightarrow> f')"
proof -
  obtain f where f: "f = (case pf of None \<Rightarrow> ConstantFunction (fnum F 0) | Some f' \<Rightarrow> f')"
    by simp
  from solve_run_loop [OF assms] obtain g where
    g: "(case lg of None \<Rightarrow> getLogdGrid F (DivProcess self) 100 | Some g' \<Rightarrow> Inr g') = Inr g"
    by blast
  from solve_run_inv [OF assms f g]
  have inv: "run_inv F self g f tol m st" and ex: "\<not> (flt F tol (normv st) \<and> it st < m)"
    by simp_all
  from inv show le: "it st \<le> m" by (simp add: run_inv_def)
  from ex le show "flt F tol (normv st) \<Longrightarrow> it st = m" by simp
  from inv have z: "it st = 0 \<Longrightarrow> normv st = fadd F tol (fnum F 1)" by (simp add: run_inv_def)
  with ex show "0 < m \<Longrightarrow> flt F tol (fadd F tol (fnum F 1)) \<Longrightarrow> 1 \<le> it st"
    by (cases "it st = 0") auto
  from inv show "1 \<le> it st \<Longrightarrow> flt F tol (fadd F tol (fnum F 1))"
    by (auto simp: run_inv_def split: if_splits)
  from inv have "iterates F self g f (it st) = Inr (Pf_0 st)" by (simp add: run_inv_def)
  with f show "it st = 0 \<Longrightarrow> Pf_0 st = (case pf of None \<Rightarrow> ConstantFunction (fnum F 0) | Some f' \<Rightarrow> f')"
    by simp
qed

lemma solve_Inr:
  assumes "solve F self pf lg tol m disp = Inr (self', out)"
  shows "\<exists>st. solve_run F self pf lg tol m disp = Inr st
     \<and> self' = self\<lparr>EqlogPfun := Some (Pf_0 st)\<rparr>"
proof (cases "solve_run F self pf lg tol m disp")
  case (Inl e)
  with assms show ?thesis by (simp add: solve_def)
next
  case (Inr st)
  with assms show ?thesis by (simp add: solve_def)
qed

lemma iterates_Suc_shape:
  assumes "iterates F self g f (Suc k) = Inr p"
  shows "\<exists>ys. p = LinearInterp g ys True \<and> length ys = length g"
proof (cases "iterates F self g f k")
  case (Inl e)
  with assms show ?thesis by simp
next
  case (Inr q)
  with assms have "priceOnePeriod F self q g = Inr p" by simp
  then show ?thesis by (rule priceOnePeriod_shape)
qed

lemma iterates_prefix:
  "iterates F self g f n = Inr p \<Longrightarrow> k \<le> n \<Longrightarrow> \<exists>q. iterates F self g f k = Inr q"
proof (induction n arbitrary: p)
  case 0
  then show ?case by simp
next
  case (Suc n)
  show ?case
  proof (cases "k = Suc n")
    case True
    with Suc.prems show ?thesis by blast
  next
    case False
    with Suc.prems have k: "k \<le> n" by simp
    from Suc.prems(1) obtain q where "iterates F self g f n = Inr q"
      by (cases "iterates F self g f n") simp_all
    from Suc.IH [OF this k] show ?thesis .
  qed
qed

lemma iterates_shape:
  assumes "iterates F self g f n = Inr p" and "1 \<le> k" and "k \<le> n"
  shows "\<exists>zs. iterates F self g f k = Inr (LinearInterp g zs True) \<and> length zs = length g"
proof -
  from iterates_prefix [OF assms(1,3)] obtain q where q: "iterates F self g f k = Inr q" by blast
  from assms(2) obtain j where "k = Suc j" by (cases k) simp_all
  with q iterates_Suc_shape [of F self g f j q] show ?thesis by auto
qed

subsection \<open>Runs of the example economies in exact arithmetic\<close>

lemma ex_shape:
  "length (X (ShkAppDstn (DivProcess (LucasEconomy_init c b exDiv))))
     = nApprox (DivProcess (LucasEconomy_init c b exDiv))"
  "length (pmf (ShkAppDstn (DivProcess (LucasEconomy_init c b exDiv))))
     = nApprox (DivProcess (LucasEconomy_init c b exDiv))"
  by (simp_all add: ex_defs)

lemma ex_price:
  assumes "call exact f 0 = Inr a"
  shows "priceOnePeriod exact (LucasEconomy_init 1 b exDiv) f [0, ln 2]
     = Inr (LinearInterp [0, ln 2] [b * (a + 1), 2 * b * (a + 1)] True)"
  using assms
  by (simp add: priceOnePeriod_def ex_defs tile_col_def tile_row_def ew_def ew2_def
      call_mat_def call_vec_def uP_def CRRAutilityP_def)

lemma ex_vals: "call_vec exact (LinearInterp [0, ln 2] [a, b] True) [0, ln 2] = Inr [a, b]"
  by (rule call_vec_grid) simp_all

lemma ex_call0: "call exact (LinearInterp [0, ln 2] [a, b] True) 0 = Inr a"
  using LinearInterp_eval_grid_point [of "[0, ln 2]" "[a, b]" 0] by simp

lemma ex_run_cap_one:
  assumes "tol < tol + (1::real)"
  shows "solve_run exact (LucasEconomy_init 1 b exDiv) None (Some [0, ln 2]) tol 1 disp =
     Inr \<lparr>normv = l2norm exact [- b, - (2 * b)], Pf_0 = LinearInterp [0, ln 2] [b, 2 * b] True,
          P_0 = [b, 2 * b], it = 1,
          stdout = (if disp then [IterLine 1 (l2norm exact [- b, - (2 * b)])] else [])\<rparr>"
proof -
  let ?E = "LucasEconomy_init 1 b exDiv"
  let ?s0 = "\<lparr>normv = tol + 1, Pf_0 = ConstantFunction 0, P_0 = [0, 0], it = 0, stdout = []\<rparr>"
  have pf: "priceOnePeriod exact ?E (Pf_0 ?s0) [0, ln 2]
      = Inr (LinearInterp [0, ln 2] [b, 2 * b] True)"
    using ex_price [of "ConstantFunction 0" 0 b] by simp
  have "solve_loop exact ?E [0, ln 2] tol 1 disp ?s0 =
      solve_loop exact ?E [0, ln 2] tol 1 disp
        \<lparr>normv = l2norm exact (map2 (fsub exact) (P_0 ?s0) [b, 2 * b]),
         Pf_0 = LinearInterp [0, ln 2] [b, 2 * b] True, P_0 = [b, 2 * b], it = it ?s0 + 1,
         stdout = stdout ?s0 @
           (if disp then [IterLine (it ?s0 + 1)
              (l2norm exact (map2 (fsub exact) (P_0 ?s0) [b, 2 * b]))] else [])\<rparr>"
    by (rule solve_loop_step [OF _ _ pf ex_vals]) simp_all
  also have "\<dots> = Inr \<lparr>normv = l2norm exact [- b, - (2 * b)],
          Pf_0 = LinearInterp [0, ln 2] [b, 2 * b] True,
          P_0 = [b, 2 * b], it = 1,
          stdout = (if disp then [IterLine 1 (l2norm exact [- b, - (2 * b)])] else [])\<rparr>"
    by (subst solve_loop_stop) simp_all
  finally show ?thesis
    by (simp add: solve_run_def call_vec_def)
qed

lemma ex_run_two:
  "solve_run exact exEcon None (Some [0, ln 2]) 1 5 False =
     Inr \<lparr>normv = sqrt (5 / 16), Pf_0 = LinearInterp [0, ln 2] [3 / 4, 3 / 2] True,
          P_0 = [3 / 4, 3 / 2], it = 2, stdout = []\<rparr>"
proof -
  let ?s0 = "\<lparr>normv = 1 + 1, Pf_0 = ConstantFunction 0, P_0 = [0, 0], it = 0, stdout = []\<rparr>"
  let ?s1 = "\<lparr>normv = sqrt (5 / 4), Pf_0 = LinearInterp [0, ln 2] [1 / 2, 1] True,
      P_0 = [1 / 2, 1], it = 1, stdout = []\<rparr>"
  let ?s2 = "\<lparr>normv = sqrt (5 / 16), Pf_0 = LinearInterp [0, ln 2] [3 / 4, 3 / 2] True,
      P_0 = [3 / 4, 3 / 2], it = 2, stdout = []\<rparr>"
  have pf0: "priceOnePeriod exact exEcon (Pf_0 ?s0) [0, ln 2]
      = Inr (LinearInterp [0, ln 2] [1 / 2, 1] True)"
    using ex_price [of "ConstantFunction 0" 0 "1 / 2"] by (simp add: exEcon_def)
  have pf1: "priceOnePeriod exact exEcon (Pf_0 ?s1) [0, ln 2]
      = Inr (LinearInterp [0, ln 2] [3 / 4, 3 / 2] True)"
    using ex_price [of "LinearInterp [0, ln 2] [1 / 2, 1] True" "1 / 2" "1 / 2", OF ex_call0]
    by (simp add: exEcon_def)
  have "solve_loop exact exEcon [0, ln 2] 1 5 False ?s0
      = solve_loop exact exEcon [0, ln 2] 1 5 False ?s1"
    using solve_loop_step [OF _ _ pf0 ex_vals, of 1 5 False]
    by (simp add: l2norm_exact)
  also have "\<dots> = solve_loop exact exEcon [0, ln 2] 1 5 False ?s2"
    using solve_loop_step [OF _ _ pf1 ex_vals, of 1 5 False]
    by (simp add: l2norm_exact numeral_2_eq_2)
  also have "\<dots> = Inr ?s2"
    by (rule solve_loop_stop) simp
  finally show ?thesis
    by (simp add: solve_run_def call_vec_def)
qed


lemma ex_solve_cap_one:
  assumes "tol < tol + (1::real)"
  shows "solve exact (LucasEconomy_init 1 b exDiv) None (Some [0, ln 2]) tol 1 disp =
     Inr ((LucasEconomy_init 1 b exDiv)\<lparr>EqlogPfun := Some (LinearInterp [0, ln 2] [b, 2 * b] True)\<rparr>,
          if disp then [IterLine 1 (l2norm exact [- b, - (2 * b)]),
                        if l2norm exact [- b, - (2 * b)] \<le> tol then ConvergedLine else MaxIterLine]
          else [])"
  unfolding solve_def ex_run_cap_one [OF assms] by (cases disp) simp_all

lemma l2norm_half: "l2norm exact [- (1 / 2), - 1] = sqrt (5 / 4)"
  by (simp add: l2norm_exact)

lemma sqrt_5_4_bounds: "1 / 100000 < sqrt (5 / 4)" "sqrt (5 / 4) \<le> 2"
proof -
  have "(1 / 100000 :: real) < 1" by simp
  also have "1 < sqrt (5 / 4)" by simp
  finally show "1 / 100000 < sqrt (5 / 4)" .
  have "sqrt (5 / 4) \<le> sqrt (2\<^sup>2)" by (subst real_sqrt_le_iff) simp
  then show "sqrt (5 / 4) \<le> 2" by simp
qed

lemma l2norm_two: "l2norm exact [- 2, - 4] = sqrt 20"
  by (simp add: l2norm_exact)

lemma bad_run:
  "solve_run exact badEcon None (Some [0, ln 2]) (1 / 100000) 1 False =
     Inr \<lparr>normv = sqrt 20, Pf_0 = LinearInterp [0, ln 2] [2, 4] True, P_0 = [2, 4], it = 1,
          stdout = []\<rparr>"
  using ex_run_cap_one [of "1 / 100000" 2 False] by (simp add: badEcon_def l2norm_two)

subsection \<open>Runs with special values\<close>

lemma ieee_simps [simp]:
  "fnum ieee i = Fin (of_int i)" "fadd ieee = fl_add" "fsub ieee = fl_sub"
  "fmul ieee = fl_mul" "fdiv ieee = fl_div" "fneg ieee = fl_neg"
  "fpow ieee = fl_pow" "fexp ieee = fl_exp" "flog ieee = fl_log"
  "fsqrt ieee = fl_sqrt" "flt ieee = fl_lt" "fle ieee = fl_le"
  "feq ieee = fl_eq" "py_square ieee = fl_square"
  by (simp_all add: ieee_def)

lemmas fl_defs = flEcon_def flDiv_def one_node_def DivProcess_init_def LucasEconomy_init_def

lemma exp_2000_overflow: "(2::real) ^ 1024 \<le> exp 2000"
proof -
  have "(2::real) \<le> exp 1"
    using exp_ge_add_one_self [of "1::real"] by simp
  then have "(2::real) ^ 2000 \<le> exp 1 ^ 2000"
    by (rule power_mono) simp
  also have "exp (1::real) ^ 2000 = exp 2000"
    using exp_of_nat_mult [of 2000 "1::real"] by simp
  finally have a: "(2::real) ^ 2000 \<le> exp 2000" .
  have "(2::real) ^ 1024 \<le> 2 ^ 2000"
    by (rule power_increasing) simp_all
  with a show ?thesis by linarith
qed

lemma fl_exp_2000: "fl_exp (Fin 2000) = PInf"
  using exp_2000_overflow by simp


lemma fl_pow_minus_one:
  "fl_pow (Fin 1) (Fin (- 1)) = Fin 1" "fl_pow (Fin 0) (Fin (- 1)) = PInf"
  "fl_pow (Fin (1 / 2)) (Fin (- 1)) = Fin 2"
  by (simp_all add: powr_minus_divide)






lemma fl_price:
  "priceOnePeriod ieee flEcon (ConstantFunction (Fin 0)) [Fin 0, Fin (ln 2)]
     = Inr (LinearInterp [Fin 0, Fin (ln 2)] [Fin (1 / 2), Fin 1] True)"
  by (simp add: priceOnePeriod_def fl_defs tile_col_def tile_row_def ew_def ew2_def
      call_mat_def call_vec_def uP_def CRRAutilityP_def fsum_def fl_pow_minus_one
      del: fl_pow.simps)

lemma fl_vals:
  "call_vec ieee (LinearInterp [Fin 0, Fin (ln 2)] [Fin (1 / 2), Fin 1] True) [Fin 0, Fin (ln 2)]
     = Inr [Fin (1 / 2), Fin 1]"
  by (simp add: call_vec_def LinearInterp_eval_def searchsorted_def fl_sub_def)

lemma fl_run_cap_one:
  "solve_run ieee flEcon None (Some [Fin 0, Fin (ln 2)]) (Fin (1 / 100000)) 1 False =
     Inr \<lparr>normv = Fin (sqrt (5 / 4)),
          Pf_0 = LinearInterp [Fin 0, Fin (ln 2)] [Fin (1 / 2), Fin 1] True,
          P_0 = [Fin (1 / 2), Fin 1], it = 1, stdout = []\<rparr>"
proof -
  let ?g = "[Fin 0, Fin (ln 2)]"
  let ?tol = "Fin (1 / 100000)"
  let ?s0 = "\<lparr>normv = fl_add ?tol (Fin 1), Pf_0 = ConstantFunction (Fin 0),
      P_0 = [Fin 0, Fin 0], it = 0, stdout = []\<rparr>"
  let ?s1 = "\<lparr>normv = Fin (sqrt (5 / 4)),
          Pf_0 = LinearInterp ?g [Fin (1 / 2), Fin 1] True,
          P_0 = [Fin (1 / 2), Fin 1], it = 1, stdout = []\<rparr>"
  have pf: "priceOnePeriod ieee flEcon (Pf_0 ?s0) ?g
      = Inr (LinearInterp ?g [Fin (1 / 2), Fin 1] True)"
    using fl_price by simp
  have "solve_loop ieee flEcon ?g ?tol 1 False ?s0 = solve_loop ieee flEcon ?g ?tol 1 False ?s1"
    using solve_loop_step [OF _ _ pf fl_vals, of ?tol 1 False]
    by (simp add: l2norm_def fsum_def fl_sub_def)
  also have "\<dots> = Inr ?s1"
    by (rule solve_loop_stop) simp
  finally show ?thesis
    by (simp add: solve_run_def call_vec_def)
qed

lemma fl_EqPfun_overflow:
  "EqPfun ieee (flEcon\<lparr>EqlogPfun := Some (LinearInterp [Fin 0, Fin (ln 2)] [Fin (1 / 2), Fin 1] True)\<rparr>)
      (fl_exp (Fin 2000)) = Inr NaN"
  "call ieee (LinearInterp [Fin 0, Fin (ln 2)] [Fin (1 / 2), Fin 1] True) (Fin 2000)
     = Inr (Fin ((1 - 2000 / ln 2) * (1 / 2) + 2000 / ln 2))"
  by (simp_all add: EqPfun_def fl_exp_2000 LinearInterp_eval_def searchsorted_def fl_sub_def
      del: fl_exp.simps)

lemma upt_3: "[0..<3] = [0, 1, 2::nat]"
  by code_simp

lemma fl_grid_inf:
  "getLogdGrid ieee infDiv 3 = Inr [NaN, NaN, PInf]"
  by (simp add: getLogdGrid_def infDiv_def DivProcess_init_def linspace_def Let_def fl_sub_def
      upt_3)

section \<open>Properties of solve\<close>

lemma solve_run_facts:
  assumes run: "solve_run F self pf lg tol m disp = Inr st"
    and f: "f = (case pf of None \<Rightarrow> ConstantFunction (fnum F 0) | Some f' \<Rightarrow> f')"
    and g: "(case lg of None \<Rightarrow> getLogdGrid F (DivProcess self) 100 | Some g' \<Rightarrow> Inr g') = Inr g"
  shows "it st \<le> m"
    and "iterates F self g f (it st) = Inr (Pf_0 st)"
    and "call_vec F (Pf_0 st) g = Inr (P_0 st)"
    and "\<forall>k. 1 \<le> k \<and> k < it st \<longrightarrow> (\<exists>n. step_norm F self g f k = Inr n \<and> flt F tol n)"
    and "1 \<le> it st \<longrightarrow> step_norm F self g f (it st) = Inr (normv st)"
    and "it st = 0 \<longrightarrow> normv st = fadd F tol (fnum F 1) \<and> Pf_0 st = f"
    and "(it st = 0) = (m = 0 \<or> \<not> flt F tol (fadd F tol (fnum F 1)))"
    and "it st < m \<longrightarrow> \<not> flt F tol (normv st)"
proof -
  from solve_run_inv [OF run f g]
  have inv: "run_inv F self g f tol m st" and ex: "\<not> (flt F tol (normv st) \<and> it st < m)"
    by simp_all
  from inv show le: "it st \<le> m" and i: "iterates F self g f (it st) = Inr (Pf_0 st)"
    and "call_vec F (Pf_0 st) g = Inr (P_0 st)"
    and "\<forall>k. 1 \<le> k \<and> k < it st \<longrightarrow> (\<exists>n. step_norm F self g f k = Inr n \<and> flt F tol n)"
    by (simp_all add: run_inv_def)
  from inv show "1 \<le> it st \<longrightarrow> step_norm F self g f (it st) = Inr (normv st)"
    by (auto simp: run_inv_def split: if_splits)
  from inv have z: "it st = 0 \<longrightarrow> normv st = fadd F tol (fnum F 1)"
    by (simp add: run_inv_def)
  with i show "it st = 0 \<longrightarrow> normv st = fadd F tol (fnum F 1) \<and> Pf_0 st = f"
    by auto
  from inv have e: "it st \<noteq> 0 \<longrightarrow> flt F tol (fadd F tol (fnum F 1))"
    by (auto simp: run_inv_def split: if_splits)
  from ex show "it st < m \<longrightarrow> \<not> flt F tol (normv st)" by blast
  show "(it st = 0) = (m = 0 \<or> \<not> flt F tol (fadd F tol (fnum F 1)))"
  proof
    assume "it st = 0"
    with z ex show "m = 0 \<or> \<not> flt F tol (fadd F tol (fnum F 1))" by auto
  next
    assume "m = 0 \<or> \<not> flt F tol (fadd F tol (fnum F 1))"
    with le e show "it st = 0" by auto
  qed
qed




text \<open>
  C1, as amended. Whenever \<open>solve\<close> returns, the economy holds the last iterate as
  \<open>EqlogPfun\<close> and nothing else of the run. The outcome is reported on the standard output
  only, and only when \<open>disp\<close> is set: the lines printed then end with
  \<open>Price function converged!\<close> if the final norm is at or below the tolerance and with
  \<open>Maximum iterations exceeded!\<close> otherwise, and none of the lines before is one of these
  two. If the final norm is above the tolerance, the iteration cap was reached. With
  \<open>disp\<close> unset nothing is printed. This holds in every float arithmetic.
\<close>

theorem solve_reports_on_stdout_only:
  assumes "solve_run F self pf lg tol m disp = Inr st"
  shows "solve F self pf lg tol m disp =
      Inr (self\<lparr>EqlogPfun := Some (Pf_0 st)\<rparr>,
           if disp
           then stdout st @ [if fle F (normv st) tol then ConvergedLine else MaxIterLine]
           else [])
    \<and> MaxIterLine \<notin> set (stdout st) \<and> ConvergedLine \<notin> set (stdout st)
    \<and> (flt F tol (normv st) \<longrightarrow> it st = m)"
  using assms solve_run_stdout [OF assms] solve_run_cap(2) [OF assms]
  by (simp add: solve_def)

theorem solve_reports_on_stdout_only_witness:
  "solve exact exEcon None (Some [0, ln 2]) (1 / 100000) 1 True =
     Inr (exEcon\<lparr>EqlogPfun := Some (LinearInterp [0, ln 2] [1 / 2, 1] True)\<rparr>,
          [IterLine 1 (sqrt (5 / 4)), MaxIterLine])
   \<and> 1 / 100000 < sqrt (5 / 4)"
proof -
  have run: "solve_run exact exEcon None (Some [0, ln 2]) (1 / 100000) 1 True =
     Inr \<lparr>normv = sqrt (5 / 4), Pf_0 = LinearInterp [0, ln 2] [1 / 2, 1] True,
          P_0 = [1 / 2, 1], it = 1, stdout = [IterLine 1 (sqrt (5 / 4))]\<rparr>"
    using ex_run_cap_one [where tol = "1 / 100000" and b = "1 / 2" and disp = True]
    by (simp add: exEcon_def l2norm_half)
  from solve_reports_on_stdout_only [OF run] sqrt_5_4_bounds show ?thesis
    by simp
qed

text \<open>
  C1 as stated fails: with \<open>disp\<close> unset, a call that stops at the iteration cap with the
  norm above the tolerance \<open>1 / 100000\<close> and a call that converges for the tolerance \<open>2\<close>
  leave the same economy and the same (empty) output.
\<close>

theorem solve_silent_counterexample:
  "solve_run exact exEcon None (Some [0, ln 2]) (1 / 100000) 1 False =
     Inr \<lparr>normv = sqrt (5 / 4), Pf_0 = LinearInterp [0, ln 2] [1 / 2, 1] True,
          P_0 = [1 / 2, 1], it = 1, stdout = []\<rparr>
   \<and> 1 / 100000 < sqrt (5 / 4)
   \<and> solve exact exEcon None (Some [0, ln 2]) (1 / 100000) 1 False =
     Inr (exEcon\<lparr>EqlogPfun := Some (LinearInterp [0, ln 2] [1 / 2, 1] True)\<rparr>, [])
   \<and> solve_run exact exEcon None (Some [0, ln 2]) 2 1 False =
     Inr \<lparr>normv = sqrt (5 / 4), Pf_0 = LinearInterp [0, ln 2] [1 / 2, 1] True,
          P_0 = [1 / 2, 1], it = 1, stdout = []\<rparr>
   \<and> sqrt (5 / 4) \<le> 2
   \<and> solve exact exEcon None (Some [0, ln 2]) 2 1 False =
     Inr (exEcon\<lparr>EqlogPfun := Some (LinearInterp [0, ln 2] [1 / 2, 1] True)\<rparr>, [])"
  using ex_run_cap_one [where tol = "1 / 100000" and b = "1 / 2" and disp = False]
    ex_run_cap_one [where tol = 2 and b = "1 / 2" and disp = False]
    ex_solve_cap_one [where tol = "1 / 100000" and b = "1 / 2" and disp = False]
    ex_solve_cap_one [where tol = 2 and b = "1 / 2" and disp = False]
    sqrt_5_4_bounds
  by (simp add: exEcon_def l2norm_half)

text \<open>
  C3, as amended. Neither constructor checks its parameters: \<open>LucasEconomy\<close> and
  \<open>DivProcess\<close> store them as given, whatever their values, and \<open>DivProcess\<close> hands the
  standard deviation to the toolkit's discretiser unchanged. \<open>solve\<close> does not check them
  either: in every float arithmetic, with shock arrays of \<open>nApprox\<close> entries, a grid of at
  least two points and a first guess that has a value everywhere it returns for every
  risk aversion and every discount factor; and whenever it returns under a positive
  iteration cap and a tolerance for which \<open>tol + 1 > tol\<close> holds in floats, it has applied
  the one-period operator at least once.
\<close>

theorem parameters_are_not_validated:
  assumes f: "f = (case pf of None \<Rightarrow> ConstantFunction (fnum F 0) | Some f' \<Rightarrow> f')"
    and g: "(case lg of None \<Rightarrow> getLogdGrid F dp 100 | Some g' \<Rightarrow> Inr g') = Inr g"
  shows "CRRA (LucasEconomy_init c b dp) = c \<and> DiscFac (LucasEconomy_init c b dp) = b
    \<and> DivProcess (LucasEconomy_init c b dp) = dp
    \<and> alpha (DivProcess_init ap a sd mu n) = a \<and> shock_sd (DivProcess_init ap a sd mu n) = sd
    \<and> shock_mean (DivProcess_init ap a sd mu n) = mu \<and> nApprox (DivProcess_init ap a sd mu n) = n
    \<and> ShkAppDstn (DivProcess_init ap a sd mu n) = ap mu sd n
    \<and> (length (X (ShkAppDstn dp)) = nApprox dp \<and> length (pmf (ShkAppDstn dp)) = nApprox dp
          \<and> 2 \<le> length g \<and> (\<forall>y. \<exists>v. call F f y = Inr v)
        \<longrightarrow> (\<exists>st. solve_run F (LucasEconomy_init c b dp) pf lg tol m disp = Inr st))
    \<and> (\<forall>st. solve_run F (LucasEconomy_init c b dp) pf lg tol m disp = Inr st \<and> 0 < m
            \<and> flt F tol (fadd F tol (fnum F 1))
          \<longrightarrow> 1 \<le> it st)"
proof -
  have dp: "DivProcess (LucasEconomy_init c b dp) = dp"
    by (simp add: LucasEconomy_init_def)
  have "\<exists>st. solve_run F (LucasEconomy_init c b dp) pf lg tol m disp = Inr st"
    if "length (X (ShkAppDstn dp)) = nApprox dp" "length (pmf (ShkAppDstn dp)) = nApprox dp"
      "2 \<le> length g" "\<forall>y. \<exists>v. call F f y = Inr v"
  proof -
    have g': "(case lg of None \<Rightarrow> getLogdGrid F (DivProcess (LucasEconomy_init c b dp)) 100
              | Some g' \<Rightarrow> Inr g') = Inr g"
      unfolding dp by (rule g)
    from that show ?thesis
      by (intro solve_run_returns [OF _ _ _ _ f g']) (simp_all add: dp)
  qed
  moreover have "1 \<le> it st"
    if "solve_run F (LucasEconomy_init c b dp) pf lg tol m disp = Inr st" "0 < m"
      "flt F tol (fadd F tol (fnum F 1))" for st
    using solve_run_cap(3) [OF that] .
  ultimately show ?thesis
    by (simp add: LucasEconomy_init_def DivProcess_init_def)
qed

theorem parameters_are_not_validated_witness:
  "(\<exists>st. solve_run exact badEcon None (Some [0, ln 2]) (1 / 100000) 1 False = Inr st
       \<and> 1 \<le> it st)
   \<and> DiscFac badEcon = 2"
proof -
  have f: "ConstantFunction 0
      = (case None of None \<Rightarrow> ConstantFunction (fnum exact 0) | Some f' \<Rightarrow> f')"
    by simp
  have g: "(case Some [0, ln 2] of None \<Rightarrow> getLogdGrid exact exDiv 100 | Some g' \<Rightarrow> Inr g')
      = Inr [0, ln 2]"
    by simp
  note T = parameters_are_not_validated [OF f g,
      of 1 2 "one_node exact" 0 "1 / 10" 0 1 "1 / 100000" 1 False]
  have wf: "length (X (ShkAppDstn exDiv)) = nApprox exDiv
          \<and> length (pmf (ShkAppDstn exDiv)) = nApprox exDiv
          \<and> 2 \<le> length [0, ln (2::real)]
          \<and> (\<forall>y. \<exists>v. call exact (ConstantFunction 0) y = Inr v)"
    by (simp add: ex_defs)
  from T wf obtain st where st: "solve_run exact (LucasEconomy_init 1 2 exDiv) None
      (Some [0, ln 2]) (1 / 100000) 1 False = Inr st"
    by blast
  have "flt exact (1 / 100000) (fadd exact (1 / 100000) (fnum exact 1))" by simp
  with T st have "1 \<le> it st" by blast
  moreover from T have "DiscFac (LucasEconomy_init 1 2 exDiv) = 2" by blast
  ultimately show ?thesis using st by (auto simp: badEcon_def)
qed

text \<open>
  C3 as stated fails: the economy with the discount factor \<open>2\<close> is constructed, and \<open>solve\<close>
  iterates on it and assigns the result.
\<close>

theorem malformed_economy_counterexample:
  "DiscFac badEcon = 2
   \<and> solve_run exact badEcon None (Some [0, ln 2]) (1 / 100000) 1 False =
       Inr \<lparr>normv = sqrt 20, Pf_0 = LinearInterp [0, ln 2] [2, 4] True, P_0 = [2, 4], it = 1,
            stdout = []\<rparr>
   \<and> solve exact badEcon None (Some [0, ln 2]) (1 / 100000) 1 False =
       Inr (badEcon\<lparr>EqlogPfun := Some (LinearInterp [0, ln 2] [2, 4] True)\<rparr>, [])"
proof -
  have "DiscFac badEcon = 2" by (simp add: ex_defs)
  moreover have "solve exact badEcon None (Some [0, ln 2]) (1 / 100000) 1 False =
       Inr (badEcon\<lparr>EqlogPfun := Some (LinearInterp [0, ln 2] [2, 4] True)\<rparr>, [])"
    unfolding solve_def bad_run by simp
  ultimately show ?thesis using bad_run by simp
qed




text \<open>
  C6, as amended. After \<open>solve\<close> has returned, in every float arithmetic, the economy
  holds as \<open>EqlogPfun\<close> the function its loop ended with, that is the iterate of the number
  of iterations made, and \<open>EqPfun d\<close> is \<open>EqlogPfun (log d)\<close> for every float \<open>d\<close>, also for
  those that are not positive. \<open>EqPfun (exp x)\<close> is \<open>EqlogPfun x\<close> for the floats \<open>x\<close> with
  \<open>log (exp x) = x\<close>, which in exact arithmetic are all.
\<close>

theorem EqPfun_is_EqlogPfun_of_log:
  assumes run: "solve F self pf lg tol m disp = Inr (self', out)"
    and f: "f = (case pf of None \<Rightarrow> ConstantFunction (fnum F 0) | Some f' \<Rightarrow> f')"
    and g: "(case lg of None \<Rightarrow> getLogdGrid F (DivProcess self) 100 | Some g' \<Rightarrow> Inr g') = Inr g"
  shows "\<exists>st. solve_run F self pf lg tol m disp = Inr st
     \<and> EqlogPfun self' = Some (Pf_0 st) \<and> it st \<le> m
     \<and> iterates F self g f (it st) = Inr (Pf_0 st)
     \<and> (it st = 0) = (m = 0 \<or> \<not> flt F tol (fadd F tol (fnum F 1)))
     \<and> (1 \<le> it st \<longrightarrow> step_norm F self g f (it st) = Inr (normv st))
     \<and> (it st < m \<longrightarrow> \<not> flt F tol (normv st))
     \<and> (\<forall>d. EqPfun F self' d = call F (Pf_0 st) (flog F d))
     \<and> (\<forall>x. flog F (fexp F x) = x \<longrightarrow> EqPfun F self' (fexp F x) = call F (Pf_0 st) x)"
proof -
  from solve_Inr [OF run] obtain st where st: "solve_run F self pf lg tol m disp = Inr st"
    and self': "self' = self\<lparr>EqlogPfun := Some (Pf_0 st)\<rparr>"
    by blast
  note T = solve_run_facts [OF st f g]
  have e: "EqlogPfun self' = Some (Pf_0 st)" by (simp add: self')
  then have d: "\<forall>d. EqPfun F self' d = call F (Pf_0 st) (flog F d)"
    by (simp add: EqPfun_def)
  then have x: "\<forall>x. flog F (fexp F x) = x \<longrightarrow> EqPfun F self' (fexp F x) = call F (Pf_0 st) x"
    by simp
  from st e T(1) T(2) T(7) T(5) T(8) d x show ?thesis
    by (intro exI [of _ st]) simp
qed

theorem EqPfun_is_EqlogPfun_of_log_witness:
  "solve exact exEcon None (Some [0, ln 2]) 1 5 False =
     Inr (exEcon\<lparr>EqlogPfun := Some (LinearInterp [0, ln 2] [3 / 4, 3 / 2] True)\<rparr>, [])
   \<and> iterates exact exEcon [0, ln 2] (ConstantFunction 0) 2
       = Inr (LinearInterp [0, ln 2] [3 / 4, 3 / 2] True)
   \<and> EqPfun exact (exEcon\<lparr>EqlogPfun := Some (LinearInterp [0, ln 2] [3 / 4, 3 / 2] True)\<rparr>) 2
       = Inr (3 / 2)
   \<and> EqPfun exact (exEcon\<lparr>EqlogPfun := Some (LinearInterp [0, ln 2] [3 / 4, 3 / 2] True)\<rparr>)
       (exp 0) = Inr (3 / 4)"
proof -
  let ?p = "LinearInterp [0, ln 2] [3 / 4, 3 / 2] True"
  let ?st = "\<lparr>normv = sqrt (5 / 16), Pf_0 = ?p, P_0 = [3 / 4, 3 / 2], it = 2, stdout = []\<rparr>"
  have run: "solve exact exEcon None (Some [0, ln 2]) 1 5 False =
     Inr (exEcon\<lparr>EqlogPfun := Some ?p\<rparr>, [])"
    unfolding solve_def ex_run_two by simp
  have f: "ConstantFunction 0
      = (case None of None \<Rightarrow> ConstantFunction (fnum exact 0) | Some f' \<Rightarrow> f')"
    by simp
  have g: "(case Some [0, ln 2] of None \<Rightarrow> getLogdGrid exact (DivProcess exEcon) 100
            | Some g' \<Rightarrow> Inr g') = Inr [0, ln 2]"
    by simp
  have v: "call exact ?p (ln 2) = Inr (3 / 2)"
    using LinearInterp_eval_grid_point [of "[0, ln 2]" "[3 / 4, 3 / 2]" 1] by simp
  from EqPfun_is_EqlogPfun_of_log [OF run f g] ex_run_two
  have a: "iterates exact exEcon [0, ln 2] (ConstantFunction 0) (it ?st) = Inr (Pf_0 ?st)"
    and d: "\<forall>d. EqPfun exact (exEcon\<lparr>EqlogPfun := Some ?p\<rparr>) d
          = call exact (Pf_0 ?st) (flog exact d)"
    and x: "\<forall>x. flog exact (fexp exact x) = x \<longrightarrow>
          EqPfun exact (exEcon\<lparr>EqlogPfun := Some ?p\<rparr>) (fexp exact x) = call exact (Pf_0 ?st) x"
    by auto
  from d have "EqPfun exact (exEcon\<lparr>EqlogPfun := Some ?p\<rparr>) 2 = call exact ?p (ln 2)"
    by simp
  moreover from x [THEN spec, of 0]
  have "EqPfun exact (exEcon\<lparr>EqlogPfun := Some ?p\<rparr>) (exp 0) = call exact ?p 0"
    by simp
  ultimately show ?thesis using a run v ex_call0 [of "3 / 4" "3 / 2"] by simp
qed

text \<open>
  C6 as stated fails in floats for the first half: \<open>exp 2000\<close> overflows to infinity,
  whose logarithm is infinity, where the interpolant is not a number, while the
  interpolant at \<open>2000\<close> is a number.
\<close>

theorem exp_overflow_counterexample:
  "solve ieee flEcon None (Some [Fin 0, Fin (ln 2)]) (Fin (1 / 100000)) 1 False =
     Inr (flEcon\<lparr>EqlogPfun := Some (LinearInterp [Fin 0, Fin (ln 2)] [Fin (1 / 2), Fin 1] True)\<rparr>,
          [])
   \<and> EqPfun ieee
       (flEcon\<lparr>EqlogPfun := Some (LinearInterp [Fin 0, Fin (ln 2)] [Fin (1 / 2), Fin 1] True)\<rparr>)
       (fexp ieee (Fin 2000)) = Inr NaN
   \<and> call ieee (LinearInterp [Fin 0, Fin (ln 2)] [Fin (1 / 2), Fin 1] True) (Fin 2000)
       = Inr (Fin ((1 - 2000 / ln 2) * (1 / 2) + 2000 / ln 2))"
proof -
  have "solve ieee flEcon None (Some [Fin 0, Fin (ln 2)]) (Fin (1 / 100000)) 1 False =
     Inr (flEcon\<lparr>EqlogPfun := Some (LinearInterp [Fin 0, Fin (ln 2)] [Fin (1 / 2), Fin 1] True)\<rparr>,
          [])"
    unfolding solve_def fl_run_cap_one by simp
  with fl_EqPfun_overflow show ?thesis by (simp del: fl_exp.simps)
qed

section \<open>Extrapolation below the grid\<close>

lemma interpolant_extrapolates_below:
  assumes len: "2 \<le> length g" and ys: "length ys = length g"
  shows "extrapolates_below F (LinearInterp g ys True) g"
  unfolding extrapolates_below_def
proof (intro exI [of _ ys] conjI allI impI)
  fix x
  show "\<exists>v. call F (LinearInterp g ys True) x = Inr v"
    using LinearInterp_eval_total [OF len ys, of F x] by simp
next
  fix x assume "feq F x x \<and> \<not> flt F (g ! 0) x"
  then show "call F (LinearInterp g ys True) x = Inr (first_segment F g ys x)"
    using LinearInterp_eval_below [OF len ys, of F x] by (simp add: first_segment_def)
qed (simp_all add: ys)

text \<open>
  C7, as amended. In every float arithmetic, a pricing function returned by
  \<open>priceOnePeriod\<close> on a grid of at least two points extrapolates below the grid: it has a
  value at every float, and at a number that is not above the first grid point that
  value is the one of the line through the first two points of the interpolant. So does
  the function that \<open>solve\<close> assigns on such a grid when it has made at least one
  iteration, that is under a positive iteration cap and a tolerance with \<open>tol + 1 > tol\<close>.
\<close>

theorem priceOnePeriod_extrapolates_below:
  assumes len: "2 \<le> length g"
  shows "(\<forall>p. priceOnePeriod F self f g = Inr p \<longrightarrow> extrapolates_below F p g)
    \<and> (\<forall>pf lg tol m disp self' out.
          solve F self pf lg tol m disp = Inr (self', out)
          \<and> (case lg of None \<Rightarrow> getLogdGrid F (DivProcess self) 100 | Some g' \<Rightarrow> Inr g') = Inr g
          \<and> 0 < m \<and> flt F tol (fadd F tol (fnum F 1))
        \<longrightarrow> (\<exists>p. EqlogPfun self' = Some p \<and> extrapolates_below F p g))"
proof (intro conjI allI impI)
  fix p assume "priceOnePeriod F self f g = Inr p"
  from priceOnePeriod_shape [OF this] obtain ys where "p = LinearInterp g ys True"
    "length ys = length g" by blast
  with interpolant_extrapolates_below [OF len, of ys F] show "extrapolates_below F p g"
    by simp
next
  fix pf lg tol m disp self' out
  assume a: "solve F self pf lg tol m disp = Inr (self', out)
          \<and> (case lg of None \<Rightarrow> getLogdGrid F (DivProcess self) 100 | Some g' \<Rightarrow> Inr g') = Inr g
          \<and> 0 < m \<and> flt F tol (fadd F tol (fnum F 1))"
  then have run: "solve F self pf lg tol m disp = Inr (self', out)"
    and g: "(case lg of None \<Rightarrow> getLogdGrid F (DivProcess self) 100 | Some g' \<Rightarrow> Inr g') = Inr g"
    and m: "0 < m" "flt F tol (fadd F tol (fnum F 1))"
    by simp_all
  from solve_Inr [OF run] obtain st where st: "solve_run F self pf lg tol m disp = Inr st"
    and self': "self' = self\<lparr>EqlogPfun := Some (Pf_0 st)\<rparr>"
    by blast
  have f: "(case pf of None \<Rightarrow> ConstantFunction (fnum F 0) | Some f' \<Rightarrow> f')
      = (case pf of None \<Rightarrow> ConstantFunction (fnum F 0) | Some f' \<Rightarrow> f')"
    by simp
  note T = solve_run_facts [OF st f g]
  from T(7) m have n: "1 \<le> it st" by auto
  from iterates_shape [OF T(2) n order_refl] T(2) obtain ys where
    "Pf_0 st = LinearInterp g ys True" "length ys = length g" by auto
  with interpolant_extrapolates_below [OF len, of ys F] self'
  show "\<exists>p. EqlogPfun self' = Some p \<and> extrapolates_below F p g"
    by simp
qed

theorem priceOnePeriod_extrapolates_below_witness:
  "priceOnePeriod exact exEcon (ConstantFunction 0) [0, ln 2]
     = Inr (LinearInterp [0, ln 2] [1 / 2, 1] True)
   \<and> call exact (LinearInterp [0, ln 2] [1 / 2, 1] True) (- 1)
       = Inr ((1 - (- 1) / ln 2) * (1 / 2) + (- 1) / ln 2 * 1)
   \<and> solve exact exEcon None (Some [0, ln 2]) 1 5 False =
       Inr (exEcon\<lparr>EqlogPfun := Some (LinearInterp [0, ln 2] [3 / 4, 3 / 2] True)\<rparr>, [])
   \<and> call exact (LinearInterp [0, ln 2] [3 / 4, 3 / 2] True) (- 1)
       = Inr ((1 - (- 1) / ln 2) * (3 / 4) + (- 1) / ln 2 * (3 / 2))"
proof -
  have len: "2 \<le> length [0, ln (2::real)]" by simp
  note T = priceOnePeriod_extrapolates_below [OF len, of exact exEcon "ConstantFunction 0"]
  have pr: "priceOnePeriod exact exEcon (ConstantFunction 0) [0, ln 2]
     = Inr (LinearInterp [0, ln 2] [1 / 2, 1] True)"
    using ex_price [of "ConstantFunction 0" 0 "1 / 2"] by (simp add: exEcon_def)
  have run: "solve exact exEcon None (Some [0, ln 2]) 1 5 False =
     Inr (exEcon\<lparr>EqlogPfun := Some (LinearInterp [0, ln 2] [3 / 4, 3 / 2] True)\<rparr>, [])"
    unfolding solve_def ex_run_two by simp
  from T pr have "extrapolates_below exact (LinearInterp [0, ln 2] [1 / 2, 1] True) [0, ln 2]"
    by blast
  then have a: "call exact (LinearInterp [0, ln 2] [1 / 2, 1] True) (- 1)
      = Inr (first_segment exact [0, ln 2] [1 / 2, 1] (- 1))"
    by (simp add: extrapolates_below_def)
  from T have "solve exact exEcon None (Some [0, ln 2]) 1 5 False
        = Inr (exEcon\<lparr>EqlogPfun := Some (LinearInterp [0, ln 2] [3 / 4, 3 / 2] True)\<rparr>, [])
      \<and> (case Some [0, ln 2] of None \<Rightarrow> getLogdGrid exact (DivProcess exEcon) 100
          | Some g' \<Rightarrow> Inr g') = Inr [0, ln 2]
      \<and> 0 < (5::nat) \<and> flt exact 1 (fadd exact 1 (fnum exact 1))
     \<longrightarrow> (\<exists>p. EqlogPfun (exEcon\<lparr>EqlogPfun := Some (LinearInterp [0, ln 2] [3 / 4, 3 / 2] True)\<rparr>)
            = Some p \<and> extrapolates_below exact p [0, ln 2])"
    by blast
  with run have "extrapolates_below exact (LinearInterp [0, ln 2] [3 / 4, 3 / 2] True) [0, ln 2]"
    by simp
  then have b: "call exact (LinearInterp [0, ln 2] [3 / 4, 3 / 2] True) (- 1)
      = Inr (first_segment exact [0, ln 2] [3 / 4, 3 / 2] (- 1))"
    by (simp add: extrapolates_below_def)
  from a b pr run show ?thesis
    by (simp add: first_segment_def)
qed

text \<open>
  C7 as stated fails. On a grid of one point \<open>priceOnePeriod\<close> returns an interpolant
  without a segment, whose evaluation raises an index error, below the grid as
  anywhere. And the function returned by \<open>solve\<close> need not come from \<open>priceOnePeriod\<close>:
  under the iteration cap \<open>0\<close> it is the first guess, and for a first guess built without
  the permission to extrapolate the evaluation below the grid is out of domain.
\<close>

theorem one_point_grid_counterexample:
  "priceOnePeriod exact exEcon (ConstantFunction 0) [0] = Inr (LinearInterp [0] [1 / 2] True)
   \<and> call exact (LinearInterp [0] [1 / 2] True) (- 1) = Inl IndexError
   \<and> solve exact exEcon (Some (LinearInterp [0, ln 2] [1, 2] False)) (Some [0, ln 2])
       (1 / 100000) 0 False
     = Inr (exEcon\<lparr>EqlogPfun := Some (LinearInterp [0, ln 2] [1, 2] False)\<rparr>, [])
   \<and> call exact (LinearInterp [0, ln 2] [1, 2] False) (- 1) = Inl OutOfDomain"
proof -
  have "priceOnePeriod exact exEcon (ConstantFunction 0) [0]
      = Inr (LinearInterp [0] [1 / 2] True)"
    by (simp add: priceOnePeriod_def ex_defs tile_col_def tile_row_def ew_def ew2_def
        call_mat_def call_vec_def uP_def CRRAutilityP_def)
  moreover have "call exact (LinearInterp [0] [1 / 2] True) (- 1) = Inl IndexError"
    by (simp add: LinearInterp_eval_def searchsorted_def)
  moreover have "solve exact exEcon (Some (LinearInterp [0, ln 2] [1, 2] False)) (Some [0, ln 2])
       (1 / 100000) 0 False
     = Inr (exEcon\<lparr>EqlogPfun := Some (LinearInterp [0, ln 2] [1, 2] False)\<rparr>, [])"
    by (simp add: solve_def solve_run_def call_vec_def LinearInterp_eval_def searchsorted_def
        solve_loop_stop)
  moreover have "call exact (LinearInterp [0, ln 2] [1, 2] False) (- 1) = Inl OutOfDomain"
    by (simp add: LinearInterp_eval_def searchsorted_def)
  ultimately show ?thesis by simp
qed

section \<open>The defaults of solve and the default grid\<close>

lemma length_linspace: "length (linspace F a b n) = n"
  by (simp add: linspace_def Let_def)

lemma nth_linspace:
  assumes i: "i < n" and n: "2 \<le> n"
  shows "linspace exact a b n ! i = a + real i * ((b - a) / real (n - 1))"
proof (cases "i = n - 1")
  case True
  with n have "real i * ((b - a) / real (n - 1)) = b - a" by simp
  with True i n show ?thesis by (simp add: linspace_def Let_def)
next
  case False
  with i n show ?thesis by (simp add: linspace_def Let_def)
qed

lemma getLogdGrid_length:
  assumes "getLogdGrid F dp n = Inr g"
  shows "length g = n"
proof (cases "py_square F (alpha dp)")
  case (Inl e)
  with assms show ?thesis by (simp add: getLogdGrid_def)
next
  case (Inr a2)
  with assms show ?thesis
    by (auto simp: getLogdGrid_def Let_def length_linspace split: if_splits)
qed

lemma getLogdGrid_zero_division:
  assumes "py_square F (alpha dp) = Inr a2" and "feq F (fsub F (fnum F 1) (alpha dp)) (fnum F 0)"
  shows "getLogdGrid F dp n = Inl ZeroDivisionError"
  using assms by (simp add: getLogdGrid_def Let_def)

lemma getLogdGrid_stationary:
  assumes "\<bar>alpha dp\<bar> < 1"
  shows "getLogdGrid exact dp n
     = Inr (map (\<lambda>v. v + uncond_mean dp) (linspace exact (- 5 * uncond_sd dp) (5 * uncond_sd dp) n))"
  using assms by (auto simp: getLogdGrid_def uncond_mean_def uncond_sd_def Let_def)

lemma getLogdGrid_nth:
  assumes a: "\<bar>alpha dp\<bar> < 1" and n: "2 \<le> n" and i: "i < n"
    and g: "getLogdGrid exact dp n = Inr g"
  shows "g ! i = uncond_mean dp - 5 * uncond_sd dp + real i * (10 * uncond_sd dp / real (n - 1))"
proof -
  from g getLogdGrid_stationary [OF a, of n]
  have "g = map (\<lambda>v. v + uncond_mean dp)
      (linspace exact (- 5 * uncond_sd dp) (5 * uncond_sd dp) n)"
    by simp
  with i n show ?thesis by (simp add: length_linspace nth_linspace)
qed

lemma solve_default_guess:
  "solve F self None lg tol m disp
     = solve F self (Some (ConstantFunction (fnum F 0))) lg tol m disp"
  by (simp add: solve_def solve_run_def)

lemma solve_default_grid:
  assumes "getLogdGrid F (DivProcess self) 100 = Inr g"
  shows "solve F self pf None tol m disp = solve F self pf (Some g) tol m disp"
  using assms by (simp add: solve_def solve_run_def)

lemma solve_default_grid_error:
  assumes "getLogdGrid F (DivProcess self) 100 = Inl e"
  shows "solve F self pf None tol m disp = Inl e"
  using assms by (simp add: solve_def solve_run_def)

lemma uncond_sd_pos:
  assumes "\<bar>alpha dp\<bar> < 1" and "0 < shock_sd dp"
  shows "0 < uncond_sd dp"
proof -
  from assms(1) have "(alpha dp)\<^sup>2 < 1" by (simp add: abs_square_less_1)
  then have "0 < sqrt (1 - (alpha dp)\<^sup>2)" by simp
  with assms(2) show ?thesis by (simp add: uncond_sd_def)
qed

lemma getLogdGrid_increasing:
  assumes a: "\<bar>alpha dp\<bar> < 1" and sd: "0 < shock_sd dp" and n: "2 \<le> n"
    and g: "getLogdGrid exact dp n = Inr g"
  shows "length g = n" and "sorted_wrt (<) g"
    and "i + 1 < n \<Longrightarrow> g ! (i + 1) - g ! i = 10 * uncond_sd dp / real (n - 1)"
proof -
  show len: "length g = n" by (rule getLogdGrid_length [OF g])
  have step: "0 < 10 * uncond_sd dp / real (n - 1)"
    using uncond_sd_pos [OF a sd] n by simp
  show "sorted_wrt (<) g"
    unfolding sorted_wrt_iff_nth_less
  proof (intro allI impI)
    fix i j assume ij: "i < j" "j < length g"
    with len have "i < n" "j < n" by simp_all
    note gi = getLogdGrid_nth [OF a n this(1) g] and gj = getLogdGrid_nth [OF a n this(2) g]
    have "g ! j - g ! i = real j * (10 * uncond_sd dp / real (n - 1))
        - real i * (10 * uncond_sd dp / real (n - 1))"
      by (simp only: gi gj add_diff_cancel_left)
    then have "g ! j - g ! i = (real j - real i) * (10 * uncond_sd dp / real (n - 1))"
      by (simp only: left_diff_distrib)
    moreover from ij have "0 < real j - real i" by simp
    then have "0 < (real j - real i) * (10 * uncond_sd dp / real (n - 1))"
      using step by (rule mult_pos_pos)
    ultimately have "0 < g ! j - g ! i" by (simp only:)
    then show "g ! i < g ! j" by simp
  qed
  assume "i + 1 < n"
  then have "i < n" "i + 1 < n" by simp_all
  note gi = getLogdGrid_nth [OF a n this(1) g] and gj = getLogdGrid_nth [OF a n this(2) g]
  have "g ! (i + 1) - g ! i = real (i + 1) * (10 * uncond_sd dp / real (n - 1))
      - real i * (10 * uncond_sd dp / real (n - 1))"
    by (simp only: gi gj add_diff_cancel_left)
  also have "\<dots> = (real (i + 1) - real i) * (10 * uncond_sd dp / real (n - 1))"
    by (simp only: left_diff_distrib)
  finally show "g ! (i + 1) - g ! i = 10 * uncond_sd dp / real (n - 1)"
    by simp
qed

subsection \<open>The default grid outside the stationary case, with special values\<close>

lemma fl_nan_right [simp]:
  "fl_add x NaN = NaN" "fl_mul x NaN = NaN" "fl_div x NaN = NaN" "fl_sub x NaN = NaN"
  by (cases x; simp add: fl_sub_def)+

lemma linspace_nan: "linspace ieee NaN NaN n = replicate n NaN"
proof (rule nth_equalityI)
  show "length (linspace ieee NaN NaN n) = length (replicate n NaN)"
    by (simp add: length_linspace)
next
  fix i assume "i < length (linspace ieee NaN NaN n)"
  then have i: "i < n" by (simp add: length_linspace)
  then show "linspace ieee NaN NaN n ! i = replicate n NaN ! i"
    by (simp add: linspace_def Let_def fl_sub_def nth_list_update)
qed

lemma linspace_inf:
  assumes n: "2 \<le> n"
  shows "linspace ieee NInf PInf n = replicate (n - 1) NaN @ [PInf]"
proof (rule nth_equalityI)
  show "length (linspace ieee NInf PInf n) = length (replicate (n - 1) NaN @ [PInf])"
    using n by (simp add: length_linspace)
next
  fix i assume "i < length (linspace ieee NInf PInf n)"
  then have i: "i < n" by (simp add: length_linspace)
  show "linspace ieee NInf PInf n ! i = (replicate (n - 1) NaN @ [PInf]) ! i"
  proof (cases "i = n - 1")
    case True
    with i n show ?thesis
      by (simp add: linspace_def Let_def fl_sub_def nth_append)
  next
    case False
    with i have lt: "i < n - 1" by simp
    have "fl_add (fl_mul (Fin (real i)) PInf) NInf = NaN"
      by (cases "i = 0") simp_all
    with i n lt False show ?thesis
      by (simp add: linspace_def Let_def fl_sub_def nth_append)
  qed
qed

lemma getLogdGrid_explosive:
  assumes "1 < \<bar>a\<bar>" and "a\<^sup>2 < 2 ^ 1024"
  shows "getLogdGrid ieee \<lparr>alpha = Fin a, shock_sd = sd, shock_mean = mu, nApprox = k,
      ShkAppDstn = N\<rparr> n = Inr (replicate n NaN)"
proof -
  have "1\<^sup>2 < \<bar>a\<bar>\<^sup>2"
    using assms(1) by (intro power_strict_mono) simp_all
  then have sq: "\<not> 0 \<le> 1 - a\<^sup>2" by simp
  from assms(1) have ne: "1 - a \<noteq> 0" by auto
  from assms(2) have ov: "\<not> 2 ^ 1024 \<le> a\<^sup>2" by simp
  have s: "fl_square (Fin a) = Inr (Fin (a\<^sup>2))"
    using ov by simp
  have r: "fl_sqrt (fl_sub (Fin 1) (Fin (a\<^sup>2))) = NaN"
    using sq by (simp add: fl_sub_def)
  have z: "\<not> fl_eq (fl_sub (Fin 1) (Fin a)) (Fin 0)"
    using ne by (simp add: fl_sub_def)
  show ?thesis
    unfolding getLogdGrid_def Let_def
    by (simp add: s r z linspace_nan del: fl_square.simps fl_sqrt.simps)
qed

lemma getLogdGrid_unit_root:
  "getLogdGrid ieee \<lparr>alpha = Fin 1, shock_sd = sd, shock_mean = mu, nApprox = k,
      ShkAppDstn = N\<rparr> n = Inl ZeroDivisionError"
  by (simp add: getLogdGrid_def Let_def fl_sub_def)

lemma getLogdGrid_overflow:
  assumes "2 ^ 1024 \<le> a\<^sup>2"
  shows "getLogdGrid ieee \<lparr>alpha = Fin a, shock_sd = sd, shock_mean = mu, nApprox = k,
      ShkAppDstn = N\<rparr> n = Inl OverflowError"
  using assms by (simp add: getLogdGrid_def)

lemma getLogdGrid_minus_one:
  assumes "0 < sd" and "2 \<le> n"
  shows "getLogdGrid ieee \<lparr>alpha = Fin (- 1), shock_sd = Fin sd, shock_mean = Fin mu,
      nApprox = k, ShkAppDstn = N\<rparr> n = Inr (replicate (n - 1) NaN @ [PInf])"
  using assms by (simp add: getLogdGrid_def Let_def fl_sub_def linspace_inf)

subsection \<open>The defaults of solve\<close>



subsection \<open>The default grid and stationarity\<close>

text \<open>
  C10, as amended. \<open>getLogdGrid\<close> checks nothing. In every float arithmetic a grid it
  returns has \<open>n\<close> points, it raises a division by zero when \<open>1 - alpha\<close> is zero (and the
  square of \<open>alpha\<close> has not overflowed), and \<open>solve\<close> called without a grid raises what
  \<open>getLogdGrid\<close> raises and otherwise goes on with the grid it returns, whatever that
  holds. With the special values of floats: for \<open>alpha = 1\<close> the division by zero is
  raised; for \<open>alpha\<close> of absolute value above one the grid returned holds \<open>n\<close> times
  not-a-number (an overflow error is raised if the square of \<open>alpha\<close> overflows); for
  \<open>alpha = -1\<close>, a positive standard deviation and \<open>n \<ge> 2\<close> it holds not-a-number \<open>n - 1\<close>
  times and then infinity. In exact arithmetic, for a persistence coefficient of
  absolute value below one, a positive shock standard deviation and \<open>n \<ge> 2\<close>, the grid has
  exactly \<open>n\<close> points, is strictly increasing, and its consecutive points are the same
  distance apart.
\<close>

theorem getLogdGrid_needs_stationarity:
  "(\<forall>g. getLogdGrid F dp n = Inr g \<longrightarrow> length g = n)
   \<and> (\<forall>a2. py_square F (alpha dp) = Inr a2 \<and> feq F (fsub F (fnum F 1) (alpha dp)) (fnum F 0)
         \<longrightarrow> getLogdGrid F dp n = Inl ZeroDivisionError)
   \<and> (\<forall>e. getLogdGrid F (DivProcess self) 100 = Inl e
         \<longrightarrow> solve F self pf None tol m disp = Inl e)
   \<and> (\<forall>g. getLogdGrid F (DivProcess self) 100 = Inr g
         \<longrightarrow> solve F self pf None tol m disp = solve F self pf (Some g) tol m disp)
   \<and> getLogdGrid ieee \<lparr>alpha = Fin 1, shock_sd = sd, shock_mean = mu, nApprox = k,
        ShkAppDstn = N\<rparr> n = Inl ZeroDivisionError
   \<and> (1 < \<bar>a\<bar> \<and> a\<^sup>2 < 2 ^ 1024 \<longrightarrow>
        getLogdGrid ieee \<lparr>alpha = Fin a, shock_sd = sd, shock_mean = mu, nApprox = k,
          ShkAppDstn = N\<rparr> n = Inr (replicate n NaN))
   \<and> (2 ^ 1024 \<le> a\<^sup>2 \<longrightarrow>
        getLogdGrid ieee \<lparr>alpha = Fin a, shock_sd = sd, shock_mean = mu, nApprox = k,
          ShkAppDstn = N\<rparr> n = Inl OverflowError)
   \<and> (0 < s \<and> 2 \<le> n \<longrightarrow>
        getLogdGrid ieee \<lparr>alpha = Fin (- 1), shock_sd = Fin s, shock_mean = Fin u, nApprox = k,
          ShkAppDstn = N\<rparr> n = Inr (replicate (n - 1) NaN @ [PInf]))
   \<and> (\<bar>alpha dr\<bar> < 1 \<and> 0 < shock_sd dr \<and> 2 \<le> n \<longrightarrow>
        (\<exists>g. getLogdGrid exact dr n = Inr g \<and> length g = n \<and> sorted_wrt (<) g
           \<and> (\<forall>i. i + 1 < n \<longrightarrow> g ! (i + 1) - g ! i = 10 * uncond_sd dr / real (n - 1))))"
proof (intro conjI impI allI)
  show "length g = n" if "getLogdGrid F dp n = Inr g" for g
    by (rule getLogdGrid_length [OF that])
  show "getLogdGrid F dp n = Inl ZeroDivisionError"
    if "py_square F (alpha dp) = Inr a2 \<and> feq F (fsub F (fnum F 1) (alpha dp)) (fnum F 0)" for a2
    using that getLogdGrid_zero_division [of F dp a2 n] by simp
  show "solve F self pf None tol m disp = Inl e"
    if "getLogdGrid F (DivProcess self) 100 = Inl e" for e
    by (rule solve_default_grid_error [OF that])
  show "solve F self pf None tol m disp = solve F self pf (Some g) tol m disp"
    if "getLogdGrid F (DivProcess self) 100 = Inr g" for g
    by (rule solve_default_grid [OF that])
  show "getLogdGrid ieee \<lparr>alpha = Fin 1, shock_sd = sd, shock_mean = mu, nApprox = k,
        ShkAppDstn = N\<rparr> n = Inl ZeroDivisionError"
    by (rule getLogdGrid_unit_root)
  show "getLogdGrid ieee \<lparr>alpha = Fin a, shock_sd = sd, shock_mean = mu, nApprox = k,
          ShkAppDstn = N\<rparr> n = Inr (replicate n NaN)"
    if "1 < \<bar>a\<bar> \<and> a\<^sup>2 < 2 ^ 1024"
    using that getLogdGrid_explosive [of a sd mu k N n] by simp
  show "getLogdGrid ieee \<lparr>alpha = Fin a, shock_sd = sd, shock_mean = mu, nApprox = k,
          ShkAppDstn = N\<rparr> n = Inl OverflowError"
    if "2 ^ 1024 \<le> a\<^sup>2"
    by (rule getLogdGrid_overflow [OF that])
  show "getLogdGrid ieee \<lparr>alpha = Fin (- 1), shock_sd = Fin s, shock_mean = Fin u, nApprox = k,
          ShkAppDstn = N\<rparr> n = Inr (replicate (n - 1) NaN @ [PInf])"
    if "0 < s \<and> 2 \<le> n"
    using that getLogdGrid_minus_one [of s n u k N] by simp
  assume h: "\<bar>alpha dr\<bar> < 1 \<and> 0 < shock_sd dr \<and> 2 \<le> n"
  then have a: "\<bar>alpha dr\<bar> < 1" and sd: "0 < shock_sd dr" and n: "2 \<le> n" by simp_all
  from getLogdGrid_stationary [OF a, of n] obtain g where g: "getLogdGrid exact dr n = Inr g"
    by simp
  from getLogdGrid_increasing [OF a sd n g] g
  show "\<exists>g. getLogdGrid exact dr n = Inr g \<and> length g = n \<and> sorted_wrt (<) g
           \<and> (\<forall>i. i + 1 < n \<longrightarrow> g ! (i + 1) - g ! i = 10 * uncond_sd dr / real (n - 1))"
    by (intro exI [of _ g]) simp
qed

theorem getLogdGrid_needs_stationarity_witness:
  "(\<exists>g. getLogdGrid exact exDiv 3 = Inr g \<and> length g = 3 \<and> sorted_wrt (<) g
       \<and> g ! (0 + 1) - g ! 0 = 1 / 2)
   \<and> getLogdGrid ieee (flDiv\<lparr>alpha := Fin 1\<rparr>) 3 = Inl ZeroDivisionError
   \<and> solve ieee (flEcon\<lparr>DivProcess := flDiv\<lparr>alpha := Fin 1\<rparr>\<rparr>) None None (Fin (1 / 100000)) 5 False
       = Inl ZeroDivisionError
   \<and> getLogdGrid ieee (flDiv\<lparr>alpha := Fin 2\<rparr>) 3 = Inr [NaN, NaN, NaN]
   \<and> getLogdGrid ieee (flDiv\<lparr>alpha := Fin (2 ^ 512)\<rparr>) 3 = Inl OverflowError
   \<and> getLogdGrid ieee (flDiv\<lparr>alpha := Fin (- 1)\<rparr>) 3 = Inr [NaN, NaN, PInf]"
proof -
  let ?one = "flDiv\<lparr>alpha := Fin 1\<rparr>"
  let ?E = "flEcon\<lparr>DivProcess := ?one\<rparr>"
  have fd: "flDiv = \<lparr>alpha = Fin 0, shock_sd = Fin (1 / 10), shock_mean = Fin 0, nApprox = 1,
      ShkAppDstn = one_node ieee (Fin 0) (Fin (1 / 10)) 1\<rparr>"
    by (simp add: flDiv_def DivProcess_init_def)
  have a: "\<bar>alpha exDiv\<bar> < 1 \<and> 0 < shock_sd exDiv \<and> (2::nat) \<le> 3"
    by (simp add: ex_defs)
  have sd: "uncond_sd exDiv = 1 / 10"
    by (simp add: uncond_sd_def ex_defs)
  note T = getLogdGrid_needs_stationarity [of _ _ 3 _ _ _ _ _ "Fin (1 / 10)" "Fin 0" 1
      "one_node ieee (Fin 0) (Fin (1 / 10)) 1" _ "1 / 10" 0 exDiv]
  from T [of ieee ?one ?E None "Fin (1 / 100000)" 5 False 2] a obtain g where
    g: "getLogdGrid exact exDiv 3 = Inr g" "length g = 3" "sorted_wrt (<) g"
      "\<forall>i. i + 1 < 3 \<longrightarrow> g ! (i + 1) - g ! i = 10 * uncond_sd exDiv / real (3 - 1)"
    by blast
  from g(4) [THEN spec, of 0] have d: "g ! (0 + 1) - g ! 0 = 1 / 2" by (simp add: sd)
  from T [of ieee ?one ?E None "Fin (1 / 100000)" 5 False 2]
  have one: "getLogdGrid ieee ?one 3 = Inl ZeroDivisionError"
    by (simp add: fd)
  from T [of ieee ?one ?E None "Fin (1 / 100000)" 5 False 2]
  have "\<forall>e. getLogdGrid ieee (DivProcess ?E) 100 = Inl e
         \<longrightarrow> solve ieee ?E None None (Fin (1 / 100000)) 5 False = Inl e"
    by blast
  moreover have "getLogdGrid ieee (DivProcess ?E) 100 = Inl ZeroDivisionError"
    using getLogdGrid_unit_root [of "Fin (1 / 10)" "Fin 0" 1
        "one_node ieee (Fin 0) (Fin (1 / 10)) 1" 100]
    by (simp add: fd)
  ultimately have sol: "solve ieee ?E None None (Fin (1 / 100000)) 5 False = Inl ZeroDivisionError"
    by blast
  from T [of ieee ?one ?E None "Fin (1 / 100000)" 5 False 2]
  have two: "getLogdGrid ieee (flDiv\<lparr>alpha := Fin 2\<rparr>) 3 = Inr [NaN, NaN, NaN]"
    by (simp add: fd numeral_3_eq_3)
  from T [of ieee ?one ?E None "Fin (1 / 100000)" 5 False "2 ^ 512"]
  have "(2::real) ^ 1024 \<le> (2 ^ 512)\<^sup>2 \<longrightarrow>
      getLogdGrid ieee (flDiv\<lparr>alpha := Fin (2 ^ 512)\<rparr>) 3 = Inl OverflowError"
    by (simp only: fd DivProcess.simps DivProcess.update_convs) blast
  moreover have "(2::real) ^ 1024 \<le> (2 ^ 512)\<^sup>2"
    by (simp add: power_mult [symmetric])
  ultimately have big: "getLogdGrid ieee (flDiv\<lparr>alpha := Fin (2 ^ 512)\<rparr>) 3 = Inl OverflowError"
    by blast
  from T [of ieee ?one ?E None "Fin (1 / 100000)" 5 False 2]
  have neg: "getLogdGrid ieee (flDiv\<lparr>alpha := Fin (- 1)\<rparr>) 3 = Inr [NaN, NaN, PInf]"
    by (simp add: fd numeral_3_eq_3 numeral_2_eq_2)
  from g d one sol two big neg show ?thesis
    by (intro conjI exI [of _ g]) simp_all
qed

text \<open>
  C10 as stated fails in floats. For no persistence, the shock standard deviation
  infinity (which is positive) and three points, the grid is not-a-number twice and then
  infinity, which is not strictly increasing.
\<close>

theorem infinite_sd_counterexample:
  "alpha infDiv = Fin 0 \<and> shock_sd infDiv = PInf
   \<and> flt ieee (fnum ieee 0) (shock_sd infDiv)
   \<and> getLogdGrid ieee infDiv 3 = Inr [NaN, NaN, PInf]
   \<and> \<not> flt ieee NaN NaN \<and> \<not> flt ieee NaN PInf
   \<and> \<not> sorted_wrt (flt ieee) [NaN, NaN, PInf]"
  using fl_grid_inf by (simp add: infDiv_def DivProcess_init_def)

section \<open>The closed form for log utility\<close>













end
